theory Spec2Isabelle
  imports
    Main
    "HOL-Library.Sublist"
    "HOL-Library.Char_ord"
    "HOL-Library.List_Lexorder"
    "HOL-Library.Multiset"
begin

section \<open>Python strings\<close>

text \<open>
  A Python \<open>str\<close> is represented by its UTF-8 encoding, a \<^typ>\<open>string\<close> of bytes.
  Comparison of \<open>str\<close> values by code point is the lexicographic order of the encodings,
  which is the order of \<^typ>\<open>string\<close> here. Splitting, searching and replacing with ASCII
  arguments act on the encoding as they act on the code points.
  \<open>str.lower\<close>, \<open>re.IGNORECASE\<close> and the class \<open>\d\<close> depend on the Unicode character
  tables; they are not defined here but taken from the environment (record \<open>env\<close> below).
\<close>

text \<open>\<open>needle in hay\<close>\<close>

fun contains :: "string \<Rightarrow> string \<Rightarrow> bool" where
  "contains needle [] = (needle = [])"
| "contains needle (c # cs) = (prefix needle (c # cs) \<or> contains needle cs)"

text \<open>\<open>s.split(sep)\<close> for a separator of one character: never an empty list.\<close>

fun split_on :: "char \<Rightarrow> string \<Rightarrow> string list" where
  "split_on sep [] = [[]]"
| "split_on sep (c # cs) =
     (if c = sep then [] # split_on sep cs
      else (case split_on sep cs of
              [] \<Rightarrow> [[c]]
            | w # ws \<Rightarrow> (c # w) # ws))"

text \<open>\<open>str(n)\<close> for an \<open>int\<close>, as an f-string formats it.\<close>

definition digit_char :: "nat \<Rightarrow> char" where
  "digit_char d = ''0123456789'' ! (d mod 10)"

fun str_nat :: "nat \<Rightarrow> string" where
  "str_nat n = (if n < 10 then [digit_char n] else str_nat (n div 10) @ [digit_char (n mod 10)])"

declare str_nat.simps [simp del]

definition str_int :: "int \<Rightarrow> string" where
  "str_int i = (if i < 0 then CHR ''-'' # str_nat (nat (- i)) else str_nat (nat i))"

text \<open>\<open>s.replace(old, new)\<close> for a non-empty \<open>old\<close> (the only use in the source):
  the occurrences are replaced from the left, without overlap.\<close>

function replace :: "string \<Rightarrow> string \<Rightarrow> string \<Rightarrow> string" where
  "replace old new s =
     (if old = [] \<or> s = [] then s
      else if prefix old s then new @ replace old new (drop (length old) s)
      else hd s # replace old new (tl s))"
  by pat_completeness auto
termination
  by (relation "measure (\<lambda>(old, new, s). length s)") (auto simp: neq_Nil_conv)

declare replace.simps [simp del]

text \<open>\<open>str.strip()\<close>: the characters with \<open>str.isspace()\<close>, in UTF-8
  (U+0009..U+000D, U+001C..U+0020, U+0085, U+00A0, U+1680, U+2000..U+200A, U+2028, U+2029,
  U+202F, U+205F, U+3000).\<close>

definition whitespace :: "string list" where
  "whitespace =
     [[CHR 0x09], [CHR 0x0A], [CHR 0x0B], [CHR 0x0C], [CHR 0x0D],
      [CHR 0x1C], [CHR 0x1D], [CHR 0x1E], [CHR 0x1F], [CHR 0x20],
      [CHR 0xC2, CHR 0x85], [CHR 0xC2, CHR 0xA0], [CHR 0xE1, CHR 0x9A, CHR 0x80],
      [CHR 0xE2, CHR 0x80, CHR 0x80], [CHR 0xE2, CHR 0x80, CHR 0x81],
      [CHR 0xE2, CHR 0x80, CHR 0x82], [CHR 0xE2, CHR 0x80, CHR 0x83],
      [CHR 0xE2, CHR 0x80, CHR 0x84], [CHR 0xE2, CHR 0x80, CHR 0x85],
      [CHR 0xE2, CHR 0x80, CHR 0x86], [CHR 0xE2, CHR 0x80, CHR 0x87],
      [CHR 0xE2, CHR 0x80, CHR 0x88], [CHR 0xE2, CHR 0x80, CHR 0x89],
      [CHR 0xE2, CHR 0x80, CHR 0x8A], [CHR 0xE2, CHR 0x80, CHR 0xA8],
      [CHR 0xE2, CHR 0x80, CHR 0xA9], [CHR 0xE2, CHR 0x80, CHR 0xAF],
      [CHR 0xE2, CHR 0x81, CHR 0x9F], [CHR 0xE3, CHR 0x80, CHR 0x80]]"

function lstrip :: "string \<Rightarrow> string" where
  "lstrip s =
     (case find (\<lambda>w. prefix w s) whitespace of
        None \<Rightarrow> s
      | Some w \<Rightarrow> lstrip (drop (length w) s))"
  by pat_completeness auto
termination
proof (relation "measure length", simp)
  fix s w
  assume "find (\<lambda>w. prefix w s) whitespace = Some w"
  then have "w \<in> set whitespace" and "prefix w s"
    by (auto simp: find_Some_iff)
  then have "w \<noteq> []" and "length w \<le> length s"
    by (auto simp: whitespace_def prefix_length_le)
  then show "(drop (length w) s, s) \<in> measure length"
    by (cases w) auto
qed

declare lstrip.simps [simp del]

function rstrip :: "string \<Rightarrow> string" where
  "rstrip s =
     (case find (\<lambda>w. suffix w s) whitespace of
        None \<Rightarrow> s
      | Some w \<Rightarrow> rstrip (take (length s - length w) s))"
  by pat_completeness auto
termination
proof (relation "measure length", simp)
  fix s w
  assume "find (\<lambda>w. suffix w s) whitespace = Some w"
  then have "w \<in> set whitespace" and "suffix w s"
    by (auto simp: find_Some_iff)
  then have "w \<noteq> []" and "length w \<le> length s"
    by (auto simp: whitespace_def suffix_length_le)
  then show "(take (length s - length w) s, s) \<in> measure length"
    by (cases w) auto
qed

declare rstrip.simps [simp del]

definition strip :: "string \<Rightarrow> string" where
  "strip s = rstrip (lstrip s)"

text \<open>\<open>urllib.parse.quote(s, safe='')\<close>: every byte outside the unreserved characters
  \<open>A-Z a-z 0-9 _ . - ~\<close> becomes \<open>%XX\<close> with upper-case hexadecimal digits.\<close>

definition unreserved :: "char \<Rightarrow> bool" where
  "unreserved c =
     (c \<in> set ''ABCDEFGHIJKLMNOPQRSTUVWXYZabcdefghijklmnopqrstuvwxyz0123456789_.-~'')"

definition hex_char :: "nat \<Rightarrow> char" where
  "hex_char d = ''0123456789ABCDEF'' ! (d mod 16)"

definition quote :: "string \<Rightarrow> string" where
  "quote s =
     concat (map (\<lambda>c. if unreserved c then [c]
                       else [CHR ''%'', hex_char (of_char c div 16), hex_char (of_char c mod 16)]) s)"

text \<open>\<open>urllib.parse.unquote_to_bytes\<close>: \<open>%XX\<close> with two hexadecimal digits becomes the
  byte \<open>XX\<close>, any other \<open>%\<close> stays.\<close>

definition hex_val :: "char \<Rightarrow> nat option" where
  "hex_val c = map_of (zip ''0123456789abcdefABCDEF''
     [0, 1, 2, 3, 4, 5, 6, 7, 8, 9, 10, 11, 12, 13, 14, 15, 10, 11, 12, 13, 14, 15]) c"

fun unquote_to_bytes :: "string \<Rightarrow> string" where
  "unquote_to_bytes (c # h1 # h2 # rest) =
     (if c = CHR ''%'' then
        (case (hex_val h1, hex_val h2) of
           (Some a, Some b) \<Rightarrow> char_of (16 * a + b) # unquote_to_bytes rest
         | _ \<Rightarrow> c # unquote_to_bytes (h1 # h2 # rest))
      else c # unquote_to_bytes (h1 # h2 # rest))"
| "unquote_to_bytes s = s"

text \<open>\<open>bytes.decode('utf-8', errors='replace')\<close>, the result again in UTF-8: a well-formed
  sequence stays; a byte that cannot start a sequence, and the longest prefix of a sequence
  that is cut off by a wrong byte or by the end, each become one U+FFFD (\<open>EF BF BD\<close>).
  \<open>continuation\<close> is a byte \<open>80..BF\<close>; the second byte of a sequence is further bound
  after \<open>E0\<close>, \<open>ED\<close>, \<open>F0\<close> and \<open>F4\<close> (no overlong forms, no surrogates, nothing above
  U+10FFFF).\<close>

definition REPLACEMENT :: string where
  "REPLACEMENT = [CHR 0xEF, CHR 0xBF, CHR 0xBD]"

definition continuation :: "char \<Rightarrow> bool" where
  "continuation c = (0x80 \<le> (of_char c :: nat) \<and> (of_char c :: nat) \<le> 0xBF)"

definition second_byte :: "char \<Rightarrow> char \<Rightarrow> bool" where
  "second_byte lead c =
     (let b = (of_char c :: nat) in
      continuation c
      \<and> (if lead = CHR 0xE0 then 0xA0 \<le> b
         else if lead = CHR 0xED then b < 0xA0
         else if lead = CHR 0xF0 then 0x90 \<le> b
         else if lead = CHR 0xF4 then b < 0x90
         else True))"

text \<open>The length of the sequence that a byte starts: 1 for ASCII, 2 for \<open>C2..DF\<close>, 3 for
  \<open>E0..EF\<close>, 4 for \<open>F0..F4\<close>, and 0 for a byte that starts none.\<close>

definition sequence_length :: "char \<Rightarrow> nat" where
  "sequence_length c =
     (let b = (of_char c :: nat) in
      if b < 0x80 then 1
      else if 0xC2 \<le> b \<and> b \<le> 0xDF then 2
      else if 0xE0 \<le> b \<and> b \<le> 0xEF then 3
      else if 0xF0 \<le> b \<and> b \<le> 0xF4 then 4
      else 0)"

fun utf8_replace :: "string \<Rightarrow> string" where
  "utf8_replace [] = []"
| "utf8_replace (c # cs) =
     (if sequence_length c = 1 then c # utf8_replace cs
      else if sequence_length c = 0 then REPLACEMENT @ utf8_replace cs
      else
        (case cs of
           [] \<Rightarrow> REPLACEMENT
         | c2 # r2 \<Rightarrow>
             if \<not> second_byte c c2 then REPLACEMENT @ utf8_replace (c2 # r2)
             else if sequence_length c = 2 then c # c2 # utf8_replace r2
             else
               (case r2 of
                  [] \<Rightarrow> REPLACEMENT
                | c3 # r3 \<Rightarrow>
                    if \<not> continuation c3 then REPLACEMENT @ utf8_replace (c3 # r3)
                    else if sequence_length c = 3 then c # c2 # c3 # utf8_replace r3
                    else
                      (case r3 of
                         [] \<Rightarrow> REPLACEMENT
                       | c4 # r4 \<Rightarrow>
                           if \<not> continuation c4 then REPLACEMENT @ utf8_replace (c4 # r4)
                           else c # c2 # c3 # c4 # utf8_replace r4))))"

text \<open>\<open>urllib.parse.unquote\<close>: a string without \<open>%\<close> is returned as it is; otherwise
  every maximal run of ASCII characters is turned into bytes and decoded, and what lies
  between the runs stays.\<close>

definition ascii :: "char \<Rightarrow> bool" where
  "ascii c = ((of_char c :: nat) < 0x80)"

function unquoted_parts :: "string \<Rightarrow> string" where
  "unquoted_parts [] = []"
| "unquoted_parts (c # cs) =
     (if ascii c
      then utf8_replace (unquote_to_bytes (takeWhile ascii (c # cs)))
             @ unquoted_parts (dropWhile ascii cs)
      else c # unquoted_parts cs)"
  by pat_completeness auto
termination
proof (relation "measure length", simp, goal_cases)
  case (1 c cs)
  have "length (dropWhile ascii cs) \<le> length cs" by (rule length_dropWhile_le)
  then show ?case by simp
next
  case (2 c cs)
  then show ?case by simp
qed

definition unquote :: "string \<Rightarrow> string" where
  "unquote s = (if CHR ''%'' \<notin> set s then s else unquoted_parts s)"

section \<open>Data model\<close>

text \<open>The dataclasses of \<open>flibusta_client.py\<close>. A field declared \<open>str\<close> that the feed
  parser fills with \<open>element.text\<close> can hold \<open>None\<close>, so it is an option here.\<close>

record Author =
  author_id :: string
  author_name :: "string option"
  author_uri :: "string option"
  books_count :: "int option"

record DownloadLink =
  link_url :: string
  link_format :: string
  mime_type :: string

record Book =
  book_id :: string
  title :: "string option"
  authors :: "Author list"
  language :: "string option"
  book_format :: "string option"
  year :: "string option"
  description :: "string option"
  download_links :: "DownloadLink list"
  cover_url :: "string option"
  book_size :: "string option"

record 'a SearchResult =
  items :: "'a list"
  total_count :: int
  has_more :: bool
  source :: string

text \<open>\<open>Author(id=..., name=...)\<close> and \<open>Book(id=..., title=..., ...)\<close> with the defaults of
  the dataclasses.\<close>

definition mk_author :: "string \<Rightarrow> string option \<Rightarrow> string option \<Rightarrow> Author" where
  "mk_author i n u = \<lparr>author_id = i, author_name = n, author_uri = u, books_count = None\<rparr>"

definition mk_book ::
  "string \<Rightarrow> string option \<Rightarrow> Author list \<Rightarrow> string option \<Rightarrow> string option
     \<Rightarrow> DownloadLink list \<Rightarrow> Book" where
  "mk_book i t as lang descr links =
     \<lparr>book_id = i, title = t, authors = as, language = lang, book_format = None, year = None,
      description = descr, download_links = links, cover_url = None, book_size = None\<rparr>"

section \<open>Exceptions, the environment and the trace of effects\<close>

text \<open>Exceptions are values. \<open>HTTPError\<close> stands for every instance of \<open>httpx.HTTPError\<close>
  (transport errors, timeouts and the \<open>HTTPStatusError\<close> of \<open>raise_for_status\<close>),
  \<open>ParseError\<close> for \<open>xml.etree.ElementTree.ParseError\<close>, \<open>OtherException\<close> for any
  other instance of \<open>Exception\<close>. What is a \<open>BaseException\<close> but no \<open>Exception\<close>
  (\<open>KeyboardInterrupt\<close>, \<open>SystemExit\<close>) ends the program and is not part of the
  model.\<close>

datatype exn = HTTPError | ParseError | AttributeError | OtherException

text \<open>What the program does to the outside, in order: the requests of \<open>_http_request\<close>,
  of \<open>_opds_request\<close> and of \<open>download_book\<close>, the calls of the status callback, and
  the callback errors it logs.\<close>

datatype event =
    HTTP_request string
  | OPDS_request string
  | Download_request string
  | Status string
  | Callback_error exn

type_synonym trace = "event list"

record response =
  status_code :: nat
  resp_text :: string
  headers :: "string \<rightharpoonup> string"
  resp_content :: string

text \<open>An element of \<open>xml.etree.ElementTree\<close>: the qualified tag, the attributes, the text
  (absent for an empty element) and the children.\<close>

datatype element =
  Element (elem_tag: string) (elem_attrib: "(string \<times> string) list")
          (elem_text: "string option") (elem_children: "element list")

text \<open>The regular expressions that use \<open>\d\<close> or \<open>re.IGNORECASE\<close>, by the number of
  their groups:
  \<^item> \<open>B_ID\<close> is \<^verbatim>\<open>/b/(\d+)\<close>, \<open>A_ID\<close> is \<^verbatim>\<open>/a/(\d+)\<close>, \<open>AUTHOR_ID\<close> is
    \<^verbatim>\<open>/author/(\d+)\<close>;
  \<^item> \<open>AUTHOR_SECTION\<close> is the pattern of \<open>_http_search_authors\<close> for the list under the
    heading of the found writers, \<^verbatim>\<open>...[^<]*</h3>\s*<ul>(.*?)</ul>\<close> with
    \<open>re.DOTALL | re.IGNORECASE\<close>;
  \<^item> \<open>BOOK_ANCHOR\<close> is \<^verbatim>\<open><a[^>]*href=["\']?/b/(\d+)["\']?[^>]*>([^<]+)</a>\<close> and
    \<open>AUTHOR_ANCHOR\<close> the same with \<^verbatim>\<open>/a/\<close>, both with \<open>re.IGNORECASE\<close>;
  \<^item> \<open>AUTHOR_ANCHOR_DOTALL\<close> is \<^verbatim>\<open><a[^>]*href=["\']?/a/(\d+)["\']?[^>]*>(.+?)</a>\<close>
    with \<open>re.IGNORECASE | re.DOTALL\<close>.
\<close>

datatype pattern1 = B_ID | A_ID | AUTHOR_ID | AUTHOR_SECTION

datatype pattern2 = BOOK_ANCHOR | AUTHOR_ANCHOR | AUTHOR_ANCHOR_DOTALL

text \<open>The environment: the remote catalog behind the \<open>httpx\<close> client, whose answer to a
  request may depend on everything that happened before, and the library functions that are
  not defined in this theory. \<open>re_search1\<close> and \<open>re_search2\<close> give the groups of the
  first match, \<open>re_finditer2\<close> the groups of all matches in order.\<close>

record env =
  client_get :: "trace \<Rightarrow> string \<Rightarrow> exn + response"
  fromstring :: "string \<Rightarrow> exn + element"
  urljoin :: "string \<Rightarrow> string \<Rightarrow> string"
  str_lower :: "string \<Rightarrow> string"
  re_search1 :: "pattern1 \<Rightarrow> string \<Rightarrow> string option"
  re_search2 :: "pattern2 \<Rightarrow> string \<Rightarrow> (string \<times> string) option"
  re_finditer2 :: "pattern2 \<Rightarrow> string \<Rightarrow> (string \<times> string) list"

text \<open>\<open>response.raise_for_status()\<close>: an \<open>HTTPStatusError\<close> unless the status is 2xx.\<close>

definition raise_for_status :: "response \<Rightarrow> exn + unit" where
  "raise_for_status r =
     (if 200 \<le> status_code r \<and> status_code r < 300 then Inr () else Inl HTTPError)"

section \<open>Configuration\<close>

definition FLIBUSTA_BASE_URL :: string where
  "FLIBUSTA_BASE_URL = ''http://flibusta.is''"

definition OPDS_BASE_URL :: string where
  "OPDS_BASE_URL = FLIBUSTA_BASE_URL @ ''/opds''"

section \<open>The HTML adapter\<close>

text \<open>\<open>re.sub(r'<[^>]+>', '', text)\<close>: a match starts at a \<open><\<close> that is followed by at
  least one character other than \<open>>\<close> and then by \<open>>\<close>; matches are removed from the
  left, without overlap.\<close>

function re_sub_tags :: "string \<Rightarrow> string" where
  "re_sub_tags [] = []"
| "re_sub_tags (c # cs) =
     (if c = CHR ''<'' \<and> takeWhile (\<lambda>x. x \<noteq> CHR ''>'') cs \<noteq> []
           \<and> dropWhile (\<lambda>x. x \<noteq> CHR ''>'') cs \<noteq> []
      then re_sub_tags (tl (dropWhile (\<lambda>x. x \<noteq> CHR ''>'') cs))
      else c # re_sub_tags cs)"
  by pat_completeness auto
termination
proof (relation "measure length", simp, goal_cases)
  case (1 c cs)
  have "length (tl (dropWhile (\<lambda>x. x \<noteq> CHR ''>'') cs)) \<le> length cs"
    using length_dropWhile_le [of "\<lambda>x. x \<noteq> CHR ''>''" cs] by simp
  then show ?case by simp
next
  case (2 c cs)
  then show ?case by simp
qed

text \<open>\<open>_clean_html\<close>\<close>

definition clean_html :: "string \<Rightarrow> string" where
  "clean_html text0 =
     (let text1 = re_sub_tags text0;
          text2 = replace ''&amp;'' ''&'' (replace ''&gt;'' ''>'' (replace ''&lt;'' ''<'' text1));
          text3 = replace ''&quot;'' ''\"'' (replace ''&nbsp;'' '' '' text2)
      in strip text3)"

text \<open>\<open>try: ... except httpx.HTTPError: return None\<close> and
  \<open>try: ... except Exception: return None\<close>\<close>

fun except_HTTPError :: "exn + 'a \<Rightarrow> exn + 'a option" where
  "except_HTTPError (Inl e) = (if e = HTTPError then Inr None else Inl e)"
| "except_HTTPError (Inr x) = Inr (Some x)"

fun except_Exception :: "exn + 'a \<Rightarrow> 'a option" where
  "except_Exception (Inl e) = None"
| "except_Exception (Inr x) = Some x"

text \<open>\<open>self.client.get(url)\<close>, \<open>response.raise_for_status()\<close>, \<open>response.text\<close>\<close>

definition get_text :: "env \<Rightarrow> trace \<Rightarrow> string \<Rightarrow> exn + string" where
  "get_text env tr url =
     (case client_get env tr url of
        Inl e \<Rightarrow> Inl e
      | Inr r \<Rightarrow> (case raise_for_status r of Inl e \<Rightarrow> Inl e | Inr _ \<Rightarrow> Inr (resp_text r)))"

text \<open>\<open>_http_request\<close>\<close>

definition http_request :: "env \<Rightarrow> trace \<Rightarrow> string \<Rightarrow> (exn + string option) \<times> trace" where
  "http_request env tr url = (except_HTTPError (get_text env tr url), tr @ [HTTP_request url])"

text \<open>The three download links that both HTML book listings build from the book id.\<close>

definition synth_links :: "string \<Rightarrow> DownloadLink list" where
  "synth_links bid =
     [\<lparr>link_url = FLIBUSTA_BASE_URL @ ''/b/'' @ bid @ ''/fb2'', link_format = ''fb2'',
       mime_type = []\<rparr>,
      \<lparr>link_url = FLIBUSTA_BASE_URL @ ''/b/'' @ bid @ ''/epub'', link_format = ''epub'',
       mime_type = []\<rparr>,
      \<lparr>link_url = FLIBUSTA_BASE_URL @ ''/b/'' @ bid @ ''/mobi'', link_format = ''mobi'',
       mime_type = []\<rparr>]"

text \<open>The body of the loop over the lines in \<open>_http_search_books\<close>: the book of a line,
  if it gives one.\<close>

definition parse_search_line :: "env \<Rightarrow> string \<Rightarrow> Book option" where
  "parse_search_line env line =
     (if contains ''/s/'' line then None
      else case re_search2 env BOOK_ANCHOR line of
        None \<Rightarrow> None
      | Some (bid, raw_title) \<Rightarrow>
          (let title' = clean_html raw_title in
           if title' = [] then None
           else
             (let authors' =
                (case re_search2 env AUTHOR_ANCHOR line of
                   None \<Rightarrow> []
                 | Some (aid, raw_name) \<Rightarrow>
                     (let author_name' = clean_html raw_name in
                      if author_name' \<noteq> [] then [mk_author aid (Some author_name') (Some [])]
                      else []))
              in Some (mk_book bid (Some title') authors' None None (synth_links bid)))))"

text \<open>The loop that removes duplicates in \<open>_http_search_books\<close>, with its set \<open>seen_ids\<close>.\<close>

fun unique_books :: "string set \<Rightarrow> Book list \<Rightarrow> Book list" where
  "unique_books seen_ids [] = []"
| "unique_books seen_ids (book # books) =
     (if book_id book \<notin> seen_ids then book # unique_books (insert (book_id book) seen_ids) books
      else unique_books seen_ids books)"

text \<open>\<open>books.sort(key=lambda b: b.title.lower())\<close>: a stable sort; \<open>None.lower()\<close>
  raises \<open>AttributeError\<close>.\<close>

definition title_key :: "env \<Rightarrow> Book \<Rightarrow> string" where
  "title_key env b = (case title b of None \<Rightarrow> [] | Some t \<Rightarrow> str_lower env t)"

definition sort_by_title :: "env \<Rightarrow> Book list \<Rightarrow> exn + Book list" where
  "sort_by_title env books =
     (if list_ex (\<lambda>b. title b = None) books then Inl AttributeError
      else Inr (sort_key (title_key env) books))"

text \<open>\<open>authors.sort(key=lambda a: a.name.lower())\<close>\<close>

definition name_key :: "env \<Rightarrow> Author \<Rightarrow> string" where
  "name_key env a = (case author_name a of None \<Rightarrow> [] | Some n \<Rightarrow> str_lower env n)"

definition sort_by_name :: "env \<Rightarrow> Author list \<Rightarrow> exn + Author list" where
  "sort_by_name env as =
     (if list_ex (\<lambda>a. author_name a = None) as then Inl AttributeError
      else Inr (sort_key (name_key env) as))"

text \<open>\<open>SearchResult(items=..., has_more=..., source=...)\<close>\<close>

definition mk_result :: "'a list \<Rightarrow> bool \<Rightarrow> string \<Rightarrow> 'a SearchResult" where
  "mk_result xs next_page src =
     \<lparr>items = xs, total_count = 0, has_more = next_page, source = src\<rparr>"

text \<open>\<open>_http_search_books\<close>. The parsing runs under \<open>except Exception\<close>.\<close>

definition http_search_books ::
  "env \<Rightarrow> trace \<Rightarrow> string \<Rightarrow> int \<Rightarrow> (exn + Book SearchResult option) \<times> trace" where
  "http_search_books env tr query page =
     (let url = FLIBUSTA_BASE_URL @ ''/booksearch?ask='' @ quote query @ ''&page='' @ str_int page
      in case http_request env tr url of
        (Inl e, tr') \<Rightarrow> (Inl e, tr')
      | (Inr None, tr') \<Rightarrow> (Inr None, tr')
      | (Inr (Some html_content), tr') \<Rightarrow>
          if html_content = [] then (Inr None, tr')
          else
            (let books = List.map_filter (parse_search_line env) (split_on (CHR 0x0A) html_content);
                 has_more' = contains (''page='' @ str_int (page + 1)) html_content
             in (Inr (except_Exception
                   (case sort_by_title env (unique_books {} books) of
                      Inl e \<Rightarrow> Inl e
                    | Inr sorted_books \<Rightarrow> Inr (mk_result sorted_books has_more' ''http''))),
                 tr')))"

text \<open>The loop over the anchors of the author section in \<open>_http_search_authors\<close>.\<close>

fun section_authors :: "string set \<Rightarrow> (string \<times> string) list \<Rightarrow> Author list" where
  "section_authors seen_ids [] = []"
| "section_authors seen_ids ((aid, raw_name) # ms) =
     (let name' = clean_html raw_name in
      if aid \<in> seen_ids \<or> name' = [] then section_authors seen_ids ms
      else mk_author aid (Some name') (Some (''/a/'' @ aid))
             # section_authors (insert aid seen_ids) ms)"

text \<open>\<open>_http_search_authors\<close>\<close>

definition http_search_authors ::
  "env \<Rightarrow> trace \<Rightarrow> string \<Rightarrow> (exn + Author SearchResult option) \<times> trace" where
  "http_search_authors env tr query =
     (let url = FLIBUSTA_BASE_URL @ ''/booksearch?ask='' @ quote query
      in case http_request env tr url of
        (Inl e, tr') \<Rightarrow> (Inl e, tr')
      | (Inr None, tr') \<Rightarrow> (Inr None, tr')
      | (Inr (Some html_content), tr') \<Rightarrow>
          if html_content = [] then (Inr None, tr')
          else
            (let authors' =
               (case re_search1 env AUTHOR_SECTION html_content of
                  None \<Rightarrow> []
                | Some author_section \<Rightarrow>
                    section_authors {} (re_finditer2 env AUTHOR_ANCHOR_DOTALL author_section))
             in (Inr (except_Exception
                   (case sort_by_name env authors' of
                      Inl e \<Rightarrow> Inl e
                    | Inr sorted_authors \<Rightarrow> Inr (mk_result sorted_authors False ''http''))),
                 tr')))"

text \<open>The anchor texts that \<open>_http_get_author_books\<close> does not take for titles; the first
  two are the Russian words for "read" and "download".\<close>

definition ACTION_LABELS :: "string list" where
  "ACTION_LABELS =
     [[CHR 0xD1, CHR 0x87, CHR 0xD0, CHR 0xB8, CHR 0xD1, CHR 0x82, CHR 0xD0, CHR 0xB0,
       CHR 0xD1, CHR 0x82, CHR 0xD1, CHR 0x8C],
      [CHR 0xD1, CHR 0x81, CHR 0xD0, CHR 0xBA, CHR 0xD0, CHR 0xB0, CHR 0xD1, CHR 0x87,
       CHR 0xD0, CHR 0xB0, CHR 0xD1, CHR 0x82, CHR 0xD1, CHR 0x8C],
      ''fb2'', ''epub'', ''mobi'', ''rtf'', ''txt'']"

text \<open>The loop over the book anchors in \<open>_http_get_author_books\<close>.\<close>

fun author_page_books ::
  "env \<Rightarrow> string \<Rightarrow> string set \<Rightarrow> (string \<times> string) list \<Rightarrow> Book list" where
  "author_page_books env aid seen_ids [] = []"
| "author_page_books env aid seen_ids ((bid, raw_title) # ms) =
     (let title' = clean_html raw_title in
      if bid \<in> seen_ids \<or> title' = [] then author_page_books env aid seen_ids ms
      else if str_lower env title' \<in> set ACTION_LABELS then author_page_books env aid seen_ids ms
      else mk_book bid (Some title') [mk_author aid (Some []) (Some [])] None None
             (synth_links bid)
             # author_page_books env aid (insert bid seen_ids) ms)"

text \<open>The parsing of \<open>_http_get_author_books\<close>, under \<open>except Exception\<close>.\<close>

definition parse_author_page :: "env \<Rightarrow> string \<Rightarrow> string \<Rightarrow> Book SearchResult option" where
  "parse_author_page env aid html_content =
     except_Exception
       (case sort_by_title env
               (author_page_books env aid {} (re_finditer2 env BOOK_ANCHOR html_content)) of
          Inl e \<Rightarrow> Inl e
        | Inr sorted_books \<Rightarrow> Inr (mk_result sorted_books False ''http''))"

text \<open>\<open>_http_get_author_books\<close>: the alphabetical page first, then the plain page.\<close>

definition http_get_author_books ::
  "env \<Rightarrow> trace \<Rightarrow> string \<Rightarrow> (exn + Book SearchResult option) \<times> trace" where
  "http_get_author_books env tr aid =
     (case http_request env tr (FLIBUSTA_BASE_URL @ ''/a/'' @ aid @ ''/alphabet'') of
        (Inl e, tr1) \<Rightarrow> (Inl e, tr1)
      | (Inr (Some (c # cs)), tr1) \<Rightarrow> (Inr (parse_author_page env aid (c # cs)), tr1)
      | (Inr _, tr1) \<Rightarrow>
          (case http_request env tr1 (FLIBUSTA_BASE_URL @ ''/a/'' @ aid) of
             (Inl e, tr2) \<Rightarrow> (Inl e, tr2)
           | (Inr (Some (c # cs)), tr2) \<Rightarrow> (Inr (parse_author_page env aid (c # cs)), tr2)
           | (Inr _, tr2) \<Rightarrow> (Inr None, tr2)))"

section \<open>The feed (OPDS) adapter\<close>

text \<open>The namespaces of \<open>NAMESPACES\<close> and the qualified tags that \<open>find\<close> and
  \<open>findall\<close> look for.\<close>

definition atom :: "string \<Rightarrow> string" where
  "atom name = ''{http://www.w3.org/2005/Atom}'' @ name"

definition dc :: "string \<Rightarrow> string" where
  "dc name = ''{http://purl.org/dc/terms/}'' @ name"

text \<open>\<open>elem.findall(tag)\<close>, \<open>elem.find(tag)\<close> (children only) and
  \<open>elem.get(key, default)\<close>\<close>

definition findall :: "element \<Rightarrow> string \<Rightarrow> element list" where
  "findall e t = filter (\<lambda>c. elem_tag c = t) (elem_children e)"

definition find_elem :: "element \<Rightarrow> string \<Rightarrow> element option" where
  "find_elem e t = find (\<lambda>c. elem_tag c = t) (elem_children e)"

definition attr_get :: "element \<Rightarrow> string \<Rightarrow> string \<Rightarrow> string" where
  "attr_get e k d = (case map_of (elem_attrib e) k of None \<Rightarrow> d | Some v \<Rightarrow> v)"

text \<open>\<open>try: ... except ET.ParseError: return None\<close>\<close>

fun except_ParseError :: "exn + 'a option \<Rightarrow> exn + 'a option" where
  "except_ParseError (Inl e) = (if e = ParseError then Inr None else Inl e)"
| "except_ParseError (Inr x) = Inr x"

text \<open>\<open>_opds_request\<close>\<close>

definition opds_request :: "env \<Rightarrow> trace \<Rightarrow> string \<Rightarrow> (exn + string option) \<times> trace" where
  "opds_request env tr url = (except_HTTPError (get_text env tr url), tr @ [OPDS_request url])"

text \<open>The loops \<open>for link in ...: match = re.search(p, href); if match: ...; break\<close>:
  the group of the first reference that matches, the empty string if none does.\<close>

fun first_match :: "(string \<Rightarrow> string option) \<Rightarrow> string list \<Rightarrow> string" where
  "first_match f [] = []"
| "first_match f (href # hrefs) =
     (case f href of Some g \<Rightarrow> g | None \<Rightarrow> first_match f hrefs)"

text \<open>\<open>_opds_parse_author\<close>\<close>

definition opds_parse_author :: "env \<Rightarrow> element \<Rightarrow> Author" where
  "opds_parse_author env author_elem =
     (let name = find_elem author_elem (atom ''name'');
          uri = find_elem author_elem (atom ''uri'');
          aid = (case uri of
                   None \<Rightarrow> []
                 | Some u \<Rightarrow>
                     (case elem_text u of
                        None \<Rightarrow> []
                      | Some t \<Rightarrow>
                          if t = [] then []
                          else (case re_search1 env A_ID t of None \<Rightarrow> [] | Some g \<Rightarrow> g)))
      in mk_author aid
           (case name of None \<Rightarrow> Some ''Unknown'' | Some n \<Rightarrow> elem_text n)
           (case uri of None \<Rightarrow> Some [] | Some u \<Rightarrow> elem_text u))"

text \<open>The table \<open>format_map\<close> and
  \<open>format_map.get(mime_type, mime_type.split('/')[-1])\<close>\<close>

definition format_map :: "(string \<times> string) list" where
  "format_map =
     [(''application/fb2+zip'', ''fb2''), (''application/fb2'', ''fb2''),
      (''application/epub+zip'', ''epub''), (''application/epub'', ''epub''),
      (''application/pdf'', ''pdf''),
      (''application/x-mobipocket-ebook'', ''mobi'')]"

definition file_format :: "string \<Rightarrow> string" where
  "file_format mime =
     (case map_of format_map mime of
        Some f \<Rightarrow> f
      | None \<Rightarrow> last (split_on (CHR ''/'') mime))"

text \<open>The body of the loop of \<open>_opds_parse_download_links\<close>: the download link of a
  \<open>link\<close> element, if it gives one.\<close>

definition acquisition_link :: "env \<Rightarrow> element \<Rightarrow> DownloadLink option" where
  "acquisition_link env link =
     (let rel = attr_get link ''rel'' [] in
      if contains ''acquisition'' rel then
        (let href = attr_get link ''href'' [];
             mime = attr_get link ''type'' []
         in if contains ''text/html'' mime then None
            else Some \<lparr>link_url = (if prefix ''/'' href then urljoin env FLIBUSTA_BASE_URL href
                                   else href),
                       link_format = file_format mime,
                       mime_type = mime\<rparr>)
      else None)"

text \<open>\<open>_opds_parse_download_links\<close>\<close>

definition opds_parse_download_links :: "env \<Rightarrow> element \<Rightarrow> DownloadLink list" where
  "opds_parse_download_links env entry =
     List.map_filter (acquisition_link env) (findall entry (atom ''link''))"

text \<open>\<open>_opds_parse_book\<close>\<close>

definition opds_parse_book :: "env \<Rightarrow> element \<Rightarrow> Book" where
  "opds_parse_book env entry =
     (let bid = first_match (re_search1 env B_ID)
                  (map (\<lambda>link. attr_get link ''href'' []) (findall entry (atom ''link'')));
          title_elem = find_elem entry (atom ''title'');
          authors' = map (opds_parse_author env) (findall entry (atom ''author''));
          language_elem = find_elem entry (dc ''language'');
          content_elem = find_elem entry (atom ''content'')
      in mk_book bid
           (case title_elem of None \<Rightarrow> Some ''Unknown'' | Some t \<Rightarrow> elem_text t)
           authors'
           (case language_elem of None \<Rightarrow> None | Some l \<Rightarrow> elem_text l)
           (case content_elem of None \<Rightarrow> None | Some c \<Rightarrow> elem_text c)
           (opds_parse_download_links env entry))"

text \<open>The books of a feed document: the entries with at least one download link.\<close>

definition feed_books :: "env \<Rightarrow> element \<Rightarrow> Book list" where
  "feed_books env root =
     filter (\<lambda>book. download_links book \<noteq> [])
       (map (opds_parse_book env) (findall root (atom ''entry'')))"

text \<open>\<open>_opds_search_books\<close>. Only \<open>ET.ParseError\<close> is caught.\<close>

definition opds_search_books ::
  "env \<Rightarrow> trace \<Rightarrow> string \<Rightarrow> int \<Rightarrow> (exn + Book SearchResult option) \<times> trace" where
  "opds_search_books env tr query page =
     (let url = OPDS_BASE_URL @ ''/opensearch?searchTerm='' @ quote query
                  @ ''&searchType=books&pageNumber='' @ str_int page
      in case opds_request env tr url of
        (Inl e, tr') \<Rightarrow> (Inl e, tr')
      | (Inr None, tr') \<Rightarrow> (Inr None, tr')
      | (Inr (Some xml_content), tr') \<Rightarrow>
          if xml_content = [] then (Inr None, tr')
          else
            (except_ParseError
               (case fromstring env xml_content of
                  Inl e \<Rightarrow> Inl e
                | Inr root \<Rightarrow>
                    (let has_more' = list_ex (\<lambda>link. map_of (elem_attrib link) ''rel'' = Some ''next'')
                                       (findall root (atom ''link''))
                     in case sort_by_title env (feed_books env root) of
                          Inl e \<Rightarrow> Inl e
                        | Inr sorted_books \<Rightarrow>
                            Inr (Some (mk_result sorted_books has_more' ''opds'')))),
             tr'))"

text \<open>The body of the loop over the entries in \<open>_opds_search_authors\<close>.\<close>

definition opds_entry_author :: "env \<Rightarrow> element \<Rightarrow> Author option" where
  "opds_entry_author env entry =
     (let aid = first_match (re_search1 env AUTHOR_ID)
                  (map (\<lambda>link. attr_get link ''href'' []) (findall entry (atom ''link'')))
      in case find_elem entry (atom ''title'') of
           None \<Rightarrow> None
         | Some t \<Rightarrow>
             (case elem_text t of
                None \<Rightarrow> None
              | Some name \<Rightarrow>
                  if name = [] then None
                  else Some (mk_author aid (Some name) (Some (''/a/'' @ aid)))))"

text \<open>\<open>_opds_search_authors\<close>\<close>

definition opds_search_authors ::
  "env \<Rightarrow> trace \<Rightarrow> string \<Rightarrow> int \<Rightarrow> (exn + Author SearchResult option) \<times> trace" where
  "opds_search_authors env tr query page =
     (let url = OPDS_BASE_URL @ ''/opensearch?searchTerm='' @ quote query
                  @ ''&searchType=authors&pageNumber='' @ str_int page
      in case opds_request env tr url of
        (Inl e, tr') \<Rightarrow> (Inl e, tr')
      | (Inr None, tr') \<Rightarrow> (Inr None, tr')
      | (Inr (Some xml_content), tr') \<Rightarrow>
          if xml_content = [] then (Inr None, tr')
          else
            (except_ParseError
               (case fromstring env xml_content of
                  Inl e \<Rightarrow> Inl e
                | Inr root \<Rightarrow>
                    (case sort_by_name env
                            (List.map_filter (opds_entry_author env) (findall root (atom ''entry''))) of
                       Inl e \<Rightarrow> Inl e
                     | Inr sorted_authors \<Rightarrow>
                         Inr (Some (mk_result sorted_authors False ''opds'')))),
             tr'))"

text \<open>The Russian word for "alphabet" that \<open>_opds_get_author_books\<close> looks for in the
  lower-cased title of an entry.\<close>

definition ALPHABET_LABEL :: string where
  "ALPHABET_LABEL =
     [CHR 0xD0, CHR 0xB0, CHR 0xD0, CHR 0xBB, CHR 0xD1, CHR 0x84, CHR 0xD0, CHR 0xB0,
      CHR 0xD0, CHR 0xB2, CHR 0xD0, CHR 0xB8, CHR 0xD1, CHR 0x82]"

text \<open>The inner loop of the search for the alphabetical listing: the reference of the
  first link of the entry that qualifies.\<close>

definition entry_target :: "env \<Rightarrow> element \<Rightarrow> string option" where
  "entry_target env entry =
     (let title_text =
            (case find_elem entry (atom ''title'') of
               None \<Rightarrow> []
             | Some t \<Rightarrow>
                 (case elem_text t of
                    None \<Rightarrow> []
                  | Some x \<Rightarrow> if x = [] then [] else str_lower env x))
      in find (\<lambda>href. contains ALPHABET_LABEL title_text \<or> contains ''alphabet'' href)
           (map (\<lambda>link. attr_get link ''href'' []) (findall entry (atom ''link''))))"

text \<open>The outer loop: the inner \<open>break\<close> leaves only the inner loop, so a later entry
  overwrites \<open>target_url\<close>.\<close>

definition find_target_url :: "env \<Rightarrow> element \<Rightarrow> string option" where
  "find_target_url env root =
     foldl (\<lambda>target_url entry.
              case entry_target env entry of None \<Rightarrow> target_url | Some href \<Rightarrow> Some href)
       None (findall root (atom ''entry''))"

text \<open>The end of \<open>_opds_get_author_books\<close>: the books of the document that was chosen.\<close>

definition author_feed_result :: "env \<Rightarrow> element \<Rightarrow> exn + Book SearchResult option" where
  "author_feed_result env root =
     (case sort_by_title env (feed_books env root) of
        Inl e \<Rightarrow> Inl e
      | Inr sorted_books \<Rightarrow> Inr (Some (mk_result sorted_books False ''opds'')))"

text \<open>\<open>_opds_get_author_books\<close>: the author's root document, then the alphabetical
  listing if the root names one.\<close>

definition opds_get_author_books ::
  "env \<Rightarrow> trace \<Rightarrow> string \<Rightarrow> (exn + Book SearchResult option) \<times> trace" where
  "opds_get_author_books env tr aid =
     (case opds_request env tr (OPDS_BASE_URL @ ''/author/'' @ aid) of
        (Inl e, tr1) \<Rightarrow> (Inl e, tr1)
      | (Inr None, tr1) \<Rightarrow> (Inr None, tr1)
      | (Inr (Some xml_content), tr1) \<Rightarrow>
          if xml_content = [] then (Inr None, tr1)
          else
            (case fromstring env xml_content of
               Inl e \<Rightarrow> (except_ParseError (Inl e), tr1)
             | Inr root \<Rightarrow>
                 (case find_target_url env root of
                    Some (c # cs) \<Rightarrow>
                      (let target_url = (if \<not> prefix ''http'' (c # cs)
                                         then urljoin env FLIBUSTA_BASE_URL (c # cs) else c # cs)
                       in case opds_request env tr1 target_url of
                            (Inl e, tr2) \<Rightarrow> (except_ParseError (Inl e), tr2)
                          | (Inr None, tr2) \<Rightarrow> (Inr None, tr2)
                          | (Inr (Some xml_content2), tr2) \<Rightarrow>
                              if xml_content2 = [] then (Inr None, tr2)
                              else
                                (except_ParseError
                                   (case fromstring env xml_content2 of
                                      Inl e \<Rightarrow> Inl e
                                    | Inr root2 \<Rightarrow> author_feed_result env root2),
                                 tr2))
                  | _ \<Rightarrow> (except_ParseError (author_feed_result env root), tr1))))"

section \<open>The public operations: HTML first, feed as fallback\<close>

text \<open>The text that the status callback receives: a warning sign and the Russian sentence
  "problems with the main server, trying the spare one...".\<close>

definition FALLBACK_MESSAGE :: string where
  "FALLBACK_MESSAGE =
     [CHR 0xE2, CHR 0x9A, CHR 0xA0, CHR 0xEF, CHR 0xB8, CHR 0x8F, CHR 0x20, CHR 0xD0, CHR 0x9F,
      CHR 0xD1, CHR 0x80, CHR 0xD0, CHR 0xBE, CHR 0xD0, CHR 0xB1, CHR 0xD0, CHR 0xBB, CHR 0xD0,
      CHR 0xB5, CHR 0xD0, CHR 0xBC, CHR 0xD1, CHR 0x8B, CHR 0x20, CHR 0xD1, CHR 0x81, CHR 0x20,
      CHR 0xD0, CHR 0xBE, CHR 0xD1, CHR 0x81, CHR 0xD0, CHR 0xBD, CHR 0xD0, CHR 0xBE, CHR 0xD0,
      CHR 0xB2, CHR 0xD0, CHR 0xBD, CHR 0xD1, CHR 0x8B, CHR 0xD0, CHR 0xBC, CHR 0x20, CHR 0xD1,
      CHR 0x81, CHR 0xD0, CHR 0xB5, CHR 0xD1, CHR 0x80, CHR 0xD0, CHR 0xB2, CHR 0xD0, CHR 0xB5,
      CHR 0xD1, CHR 0x80, CHR 0xD0, CHR 0xBE, CHR 0xD0, CHR 0xBC, CHR 0x2C, CHR 0x20, CHR 0xD0,
      CHR 0xBF, CHR 0xD1, CHR 0x80, CHR 0xD0, CHR 0xBE, CHR 0xD0, CHR 0xB1, CHR 0xD1, CHR 0x83,
      CHR 0xD1, CHR 0x8E, CHR 0x20, CHR 0xD0, CHR 0xB7, CHR 0xD0, CHR 0xB0, CHR 0xD0, CHR 0xBF,
      CHR 0xD0, CHR 0xB0, CHR 0xD1, CHR 0x81, CHR 0xD0, CHR 0xBD, CHR 0xD0, CHR 0xBE, CHR 0xD0,
      CHR 0xB9, CHR 0x20, CHR 0xD0, CHR 0xB2, CHR 0xD0, CHR 0xB0, CHR 0xD1, CHR 0x80, CHR 0xD0,
      CHR 0xB8, CHR 0xD0, CHR 0xB0, CHR 0xD0, CHR 0xBD, CHR 0xD1, CHR 0x82, CHR 0x2E, CHR 0x2E,
      CHR 0x2E]"

text \<open>The status callback, when the caller gives one: called with a text, it returns
  (\<open>None\<close>) or raises an exception (\<open>Some e\<close>).\<close>

type_synonym callback = "string \<Rightarrow> exn option"

text \<open>\<open>if status_callback: try: status_callback(...) except Exception as e:
  logger.error(...)\<close>: the exception of the callback is logged and dropped.\<close>

definition notify :: "callback option \<Rightarrow> trace \<Rightarrow> trace" where
  "notify status_callback tr =
     (case status_callback of
        None \<Rightarrow> tr
      | Some f \<Rightarrow>
          (case f FALLBACK_MESSAGE of
             None \<Rightarrow> tr @ [Status FALLBACK_MESSAGE]
           | Some e \<Rightarrow> tr @ [Status FALLBACK_MESSAGE, Callback_error e]))"

text \<open>\<open>result and result.items\<close>\<close>

definition usable :: "'a SearchResult option \<Rightarrow> bool" where
  "usable result = (case result of None \<Rightarrow> False | Some r \<Rightarrow> items r \<noteq> [])"

text \<open>\<open>search_books\<close>\<close>

definition search_books ::
  "env \<Rightarrow> trace \<Rightarrow> string \<Rightarrow> int \<Rightarrow> callback option
     \<Rightarrow> (exn + Book SearchResult option) \<times> trace" where
  "search_books env tr query page status_callback =
     (case http_search_books env tr query page of
        (Inl e, tr1) \<Rightarrow> (Inl e, tr1)
      | (Inr result, tr1) \<Rightarrow>
          if usable result then (Inr result, tr1)
          else opds_search_books env (notify status_callback tr1) query page)"

text \<open>\<open>search_authors\<close>: the page goes to the feed adapter only.\<close>

definition search_authors ::
  "env \<Rightarrow> trace \<Rightarrow> string \<Rightarrow> int \<Rightarrow> callback option
     \<Rightarrow> (exn + Author SearchResult option) \<times> trace" where
  "search_authors env tr query page status_callback =
     (case http_search_authors env tr query of
        (Inl e, tr1) \<Rightarrow> (Inl e, tr1)
      | (Inr result, tr1) \<Rightarrow>
          if usable result then (Inr result, tr1)
          else opds_search_authors env (notify status_callback tr1) query page)"

text \<open>\<open>get_author_books\<close>: the page is not used.\<close>

definition get_author_books ::
  "env \<Rightarrow> trace \<Rightarrow> string \<Rightarrow> int \<Rightarrow> callback option
     \<Rightarrow> (exn + Book SearchResult option) \<times> trace" where
  "get_author_books env tr aid page status_callback =
     (case http_get_author_books env tr aid of
        (Inl e, tr1) \<Rightarrow> (Inl e, tr1)
      | (Inr result, tr1) \<Rightarrow>
          if usable result then (Inr result, tr1)
          else opds_get_author_books env (notify status_callback tr1) aid)"

section \<open>Downloads\<close>

text \<open>\<open>re.search(r'filename[*]?=["\']?([^"\';]+)', s)\<close>, group 1. At a given start the
  match is forced: \<open>filename\<close>, a \<open>*\<close> if there is one, \<open>=\<close>, a quote if there is one,
  then the longest run, not empty, of characters other than the two quotes and \<open>;\<close>.\<close>

definition filename_char :: "char \<Rightarrow> bool" where
  "filename_char c = (c \<noteq> CHR 0x22 \<and> c \<noteq> CHR 0x27 \<and> c \<noteq> CHR '';'')"

definition match_filename :: "string \<Rightarrow> string option" where
  "match_filename s =
     (if prefix ''filename'' s then
        (let r1 = drop 8 s;
             r2 = (if prefix ''*'' r1 then tl r1 else r1)
         in case r2 of
              [] \<Rightarrow> None
            | c # r3 \<Rightarrow>
                if c = CHR ''='' then
                  (let r4 = (case r3 of
                               [] \<Rightarrow> []
                             | q # r \<Rightarrow> if q = CHR 0x22 \<or> q = CHR 0x27 then r else r3);
                       g = takeWhile filename_char r4
                   in if g = [] then None else Some g)
                else None)
      else None)"

fun search_filename :: "string \<Rightarrow> string option" where
  "search_filename [] = None"
| "search_filename (c # cs) =
     (case match_filename (c # cs) of
        Some g \<Rightarrow> Some g
      | None \<Rightarrow> search_filename cs)"

text \<open>What the pattern \<^verbatim>\<open>filename[*]?=["']?([^"';]+)\<close> says, apart from the way a
  search runs. \<open>filename_pattern s v\<close>: a match begins at the first character of \<open>s\<close>
  and its group is \<open>v\<close>, that is, \<open>s\<close> is the word \<open>filename\<close>, an optional \<open>*\<close>, the
  sign \<open>=\<close>, an optional quotation mark, the characters \<open>v\<close>, at least one and none of them
  \<open>"\<close>, \<open>'\<close> or \<open>;\<close>, and a rest that does not go on with such a character.
  \<open>leftmost_match cd v\<close>: \<open>re.search\<close> finds in \<open>cd\<close> a match with the group \<open>v\<close>, the one
  that begins first. \<open>after_last_slash url seg\<close>: \<open>seg\<close> is the text of \<open>url\<close> that follows
  its last \<open>/\<close>, the whole of \<open>url\<close> when it has none, which is \<open>url.split('/')[-1]\<close>.
  The lemmas \<open>match_filename_iff\<close>, \<open>search_filename_iff\<close> and \<open>last_segment\<close> below relate
  them to the functions above.\<close>

definition filename_pattern :: "string \<Rightarrow> string \<Rightarrow> bool" where
  "filename_pattern s v =
     (\<exists>star q rest.
        s = ''filename'' @ star @ ''='' @ q @ v @ rest
        \<and> (star = [] \<or> star = ''*'')
        \<and> (q = [] \<or> q = [CHR 0x22] \<or> q = [CHR 0x27])
        \<and> v \<noteq> [] \<and> list_all filename_char v
        \<and> (case rest of [] \<Rightarrow> True | c # r \<Rightarrow> \<not> filename_char c))"

definition leftmost_match :: "string \<Rightarrow> string \<Rightarrow> bool" where
  "leftmost_match cd v =
     (\<exists>pre s. cd = pre @ s \<and> filename_pattern s v
        \<and> (\<forall>pre' s' v'. cd = pre' @ s' \<and> length pre' < length pre
              \<longrightarrow> \<not> filename_pattern s' v'))"

definition after_last_slash :: "string \<Rightarrow> string \<Rightarrow> bool" where
  "after_last_slash url seg =
     (CHR ''/'' \<notin> set seg \<and> (url = seg \<or> (\<exists>pre. url = pre @ ''/'' @ seg)))"

text \<open>The file name of \<open>download_book\<close>, from the \<open>Content-Disposition\<close> header (the
  empty string when the response has none) and the URL.\<close>

definition derive_filename :: "string \<Rightarrow> string \<Rightarrow> string" where
  "derive_filename content_disposition url =
     (let filename =
            (if contains ''filename='' content_disposition then
               (case search_filename content_disposition of
                  None \<Rightarrow> None
                | Some g \<Rightarrow>
                    (let f = strip g in
                     Some (if CHR ''%'' \<in> set f then unquote f else f)))
             else None)
      in case filename of
           Some (c # cs) \<Rightarrow> c # cs
         | _ \<Rightarrow>
             (let segment = last (split_on (CHR ''/'') url) in
              if CHR ''.'' \<notin> set segment then ''book'' else segment))"

text \<open>\<open>download_book\<close>\<close>

definition download_book ::
  "env \<Rightarrow> trace \<Rightarrow> string \<Rightarrow> (exn + (string \<times> string) option) \<times> trace" where
  "download_book env tr url =
     (except_HTTPError
        (case client_get env tr url of
           Inl e \<Rightarrow> Inl e
         | Inr r \<Rightarrow>
             (case raise_for_status r of
                Inl e \<Rightarrow> Inl e
              | Inr _ \<Rightarrow>
                  (let content_disposition =
                         (case headers r ''Content-Disposition'' of None \<Rightarrow> [] | Some v \<Rightarrow> v)
                   in Inr (resp_content r, derive_filename content_disposition url)))),
      tr @ [Download_request url])"

section \<open>Concrete environments\<close>

text \<open>The answers of a Python environment on ASCII text, for the examples below:
  \<open>str.lower\<close> on ASCII letters, and \<open>re.search\<close> for a literal followed by \<open>(\d+)\<close>
  (the leftmost place where the literal is followed by a digit, with all the digits
  that follow).\<close>

definition ascii_lower :: "string \<Rightarrow> string" where
  "ascii_lower s =
     map (\<lambda>c. if CHR ''A'' \<le> c \<and> c \<le> CHR ''Z'' then char_of (of_char c + (32::nat)) else c) s"

definition ascii_digit :: "char \<Rightarrow> bool" where
  "ascii_digit c = (CHR ''0'' \<le> c \<and> c \<le> CHR ''9'')"

fun digits_after :: "string \<Rightarrow> string \<Rightarrow> string option" where
  "digits_after lit [] = None"
| "digits_after lit (c # cs) =
     (if prefix lit (c # cs) \<and> takeWhile ascii_digit (drop (length lit) (c # cs)) \<noteq> []
      then Some (takeWhile ascii_digit (drop (length lit) (c # cs)))
      else digits_after lit cs)"

definition ascii_search1 :: "pattern1 \<Rightarrow> string \<Rightarrow> string option" where
  "ascii_search1 p s =
     (case p of
        B_ID \<Rightarrow> digits_after ''/b/'' s
      | A_ID \<Rightarrow> digits_after ''/a/'' s
      | AUTHOR_ID \<Rightarrow> digits_after ''/author/'' s
      | AUTHOR_SECTION \<Rightarrow> None)"

subsection \<open>A catalog whose HTML source answers\<close>

text \<open>The page of the book search for \<open>war\<close>, page 0: four book lines, two of them for
  the book 3, and the link to the next page.\<close>

definition zebra_line :: string where
  "zebra_line = ''<li><a href=\"/b/3\">Zebra</a> - <a href=\"/a/7\">Ann Lee</a></li>''"

definition apple_line :: string where
  "apple_line = ''<li><a href=\"/b/1\">apple</a></li>''"

definition mango_line :: string where
  "mango_line = ''<li><a href=\"/b/2\">Mango</a></li>''"

definition zebra2_line :: string where
  "zebra2_line = ''<li><a href=\"/b/3\">Zebra (second edition)</a></li>''"

definition next_line :: string where
  "next_line = ''<a href=\"/booksearch?ask=war&page=1\">next</a>''"

definition search_page :: string where
  "search_page =
     zebra_line @ [CHR 0x0A] @ apple_line @ [CHR 0x0A] @ mango_line @ [CHR 0x0A]
       @ zebra2_line @ [CHR 0x0A] @ next_line"

text \<open>Page 1 of the same search, the last one: one book line and no link to a next
  page.\<close>

definition last_page :: string where
  "last_page = apple_line"

text \<open>The page of the author search for \<open>war\<close>: the heading of the found writers (in
  Russian) and one author.\<close>

definition authors_section :: string where
  "authors_section = ''<li><a href=\"/a/7\">Ann Lee</a></li>''"

definition authors_page :: string where
  "authors_page =
     ''<h3>'' @
     [CHR 0xD0, CHR 0x9D, CHR 0xD0, CHR 0xB0, CHR 0xD0, CHR 0xB9, CHR 0xD0, CHR 0xB4, CHR 0xD0,
      CHR 0xB5, CHR 0xD0, CHR 0xBD, CHR 0xD0, CHR 0xBD, CHR 0xD1, CHR 0x8B, CHR 0xD0, CHR 0xB5,
      CHR 0x20, CHR 0xD0, CHR 0xBF, CHR 0xD0, CHR 0xB8, CHR 0xD1, CHR 0x81, CHR 0xD0, CHR 0xB0,
      CHR 0xD1, CHR 0x82, CHR 0xD0, CHR 0xB5, CHR 0xD0, CHR 0xBB, CHR 0xD0, CHR 0xB8]
     @ ''</h3><ul>'' @ authors_section @ ''</ul>''"

text \<open>The alphabetical page of the author 7: two books, the first with a link to a
  format.\<close>

definition author_page :: string where
  "author_page =
     ''<a href=\"/b/2\">Mango</a><br><a href=\"/b/1\">apple</a> <a href=\"/b/1/fb2\">fb2</a>''"

definition html_get :: "trace \<Rightarrow> string \<Rightarrow> exn + response" where
  "html_get tr url =
     (let page = (\<lambda>t. Inr \<lparr>status_code = 200, resp_text = t, headers = Map.empty,
                              resp_content = t\<rparr>)
      in if url = ''http://flibusta.is/booksearch?ask=war&page=0'' then page search_page
         else if url = ''http://flibusta.is/booksearch?ask=war&page=1'' then page last_page
         else if url = ''http://flibusta.is/booksearch?ask=war'' then page authors_page
         else if url = ''http://flibusta.is/a/7/alphabet'' then page author_page
         else Inl HTTPError)"

text \<open>What \<open>re\<close> answers on these pages.\<close>

definition html_search1 :: "pattern1 \<Rightarrow> string \<Rightarrow> string option" where
  "html_search1 p s =
     (if p = AUTHOR_SECTION \<and> s = authors_page then Some authors_section else None)"

definition html_search2 :: "pattern2 \<Rightarrow> string \<Rightarrow> (string \<times> string) option" where
  "html_search2 p s =
     (if p = BOOK_ANCHOR then
        map_of [(zebra_line, (''3'', ''Zebra'')),
                (apple_line, (''1'', ''apple'')),
                (mango_line, (''2'', ''Mango'')),
                (zebra2_line, (''3'', ''Zebra (second edition)''))] s
      else if p = AUTHOR_ANCHOR then
        map_of [(zebra_line, (''7'', ''Ann Lee''))] s
      else None)"

definition html_finditer2 :: "pattern2 \<Rightarrow> string \<Rightarrow> (string \<times> string) list" where
  "html_finditer2 p s =
     (if p = AUTHOR_ANCHOR_DOTALL \<and> s = authors_section then [(''7'', ''Ann Lee'')]
      else if p = BOOK_ANCHOR \<and> s = author_page
        then [(''2'', ''Mango''), (''1'', ''apple''), (''1'', ''fb2'')]
      else [])"

definition html_env :: env where
  "html_env =
     \<lparr>client_get = html_get,
      fromstring = (\<lambda>s. Inl ParseError),
      urljoin = (\<lambda>base href. base @ href),
      str_lower = ascii_lower,
      re_search1 = html_search1,
      re_search2 = html_search2,
      re_finditer2 = html_finditer2\<rparr>"

text \<open>The results that the HTML adapter gives there.\<close>

definition ann_lee :: Author where
  "ann_lee = mk_author ''7'' (Some ''Ann Lee'') (Some [])"

definition search_result :: "Book SearchResult" where
  "search_result =
     mk_result
       [mk_book ''1'' (Some ''apple'') [] None None (synth_links ''1''),
        mk_book ''2'' (Some ''Mango'') [] None None (synth_links ''2''),
        mk_book ''3'' (Some ''Zebra'') [ann_lee] None None (synth_links ''3'')]
       True ''http''"

definition authors_result :: "Author SearchResult" where
  "authors_result = mk_result [mk_author ''7'' (Some ''Ann Lee'') (Some ''/a/7'')] False ''http''"

definition author_books_result :: "Book SearchResult" where
  "author_books_result =
     mk_result
       [mk_book ''1'' (Some ''apple'') [mk_author ''7'' (Some []) (Some [])] None None
          (synth_links ''1''),
        mk_book ''2'' (Some ''Mango'') [mk_author ''7'' (Some []) (Some [])] None None
          (synth_links ''2'')]
       False ''http''"

subsection \<open>A catalog whose HTML source is down\<close>

text \<open>Every HTML request is answered with status 503, every feed request with the given
  document, which the parser turns into the given tree.\<close>

definition feed_get :: "string \<Rightarrow> trace \<Rightarrow> string \<Rightarrow> exn + response" where
  "feed_get xml tr url =
     (if prefix ''http://flibusta.is/opds/'' url
      then Inr \<lparr>status_code = 200, resp_text = xml, headers = Map.empty, resp_content = xml\<rparr>
      else Inr \<lparr>status_code = 503, resp_text = [], headers = Map.empty, resp_content = []\<rparr>)"

definition feed_env :: "string \<Rightarrow> element \<Rightarrow> env" where
  "feed_env xml root =
     \<lparr>client_get = feed_get xml,
      fromstring = (\<lambda>s. if s = xml then Inr root else Inl ParseError),
      urljoin = (\<lambda>base href. base @ href),
      str_lower = ascii_lower,
      re_search1 = ascii_search1,
      re_search2 = (\<lambda>p s. None),
      re_finditer2 = (\<lambda>p s. [])\<rparr>"

text \<open>Elements of a feed: an acquisition link, an entry with its title element and its
  links, the document.\<close>

definition link_elem :: "string \<Rightarrow> string \<Rightarrow> element" where
  "link_elem href mime =
     Element (atom ''link'')
       [(''rel'', ''http://opds-spec.org/acquisition''), (''href'', href), (''type'', mime)]
       None []"

definition entry_elem :: "string option \<Rightarrow> element list \<Rightarrow> element" where
  "entry_elem t links = Element (atom ''entry'') [] None (Element (atom ''title'') [] t [] # links)"

definition feed_elem :: "element list \<Rightarrow> element" where
  "feed_elem entries = Element (atom ''feed'') [] None entries"

text \<open>A feed with two books.\<close>

definition two_books_xml :: string where
  "two_books_xml =
     ''<feed xmlns=\"http://www.w3.org/2005/Atom\">''
     @ ''<entry><title>Mango</title><link rel=\"http://opds-spec.org/acquisition\" ''
     @ ''href=\"/b/2/fb2\" type=\"application/fb2+zip\"/></entry>''
     @ ''<entry><title>apple</title><link rel=\"http://opds-spec.org/acquisition\" ''
     @ ''href=\"/b/1/epub\" type=\"application/epub+zip\"/></entry></feed>''"

definition two_books_feed :: element where
  "two_books_feed =
     feed_elem
       [entry_elem (Some ''Mango'') [link_elem ''/b/2/fb2'' ''application/fb2+zip''],
        entry_elem (Some ''apple'') [link_elem ''/b/1/epub'' ''application/epub+zip'']]"

definition two_books_env :: env where
  "two_books_env = feed_env two_books_xml two_books_feed"

definition feed_result :: "Book SearchResult" where
  "feed_result =
     mk_result
       [mk_book ''1'' (Some ''apple'') [] None None
          [\<lparr>link_url = ''http://flibusta.is/b/1/epub'', link_format = ''epub'',
            mime_type = ''application/epub+zip''\<rparr>],
        mk_book ''2'' (Some ''Mango'') [] None None
          [\<lparr>link_url = ''http://flibusta.is/b/2/fb2'', link_format = ''fb2'',
            mime_type = ''application/fb2+zip''\<rparr>]]
       False ''opds''"

definition feed_authors_result :: "Author SearchResult" where
  "feed_authors_result =
     mk_result
       [mk_author [] (Some ''apple'') (Some ''/a/''), mk_author [] (Some ''Mango'') (Some ''/a/'')]
       False ''opds''"

text \<open>A feed without entries.\<close>

definition empty_xml :: string where
  "empty_xml = ''<feed xmlns=\"http://www.w3.org/2005/Atom\"></feed>''"

definition empty_env :: env where
  "empty_env = feed_env empty_xml (feed_elem [])"

text \<open>A feed that lists the book 1 twice.\<close>

definition twice_xml :: string where
  "twice_xml =
     ''<feed xmlns=\"http://www.w3.org/2005/Atom\">''
     @ ''<entry><title>War</title><link rel=\"http://opds-spec.org/acquisition\" ''
     @ ''href=\"/b/1/fb2\" type=\"application/fb2+zip\"/></entry>''
     @ ''<entry><title>War (copy)</title><link rel=\"http://opds-spec.org/acquisition\" ''
     @ ''href=\"/b/1/epub\" type=\"application/epub+zip\"/></entry></feed>''"

definition twice_feed :: element where
  "twice_feed =
     feed_elem
       [entry_elem (Some ''War'') [link_elem ''/b/1/fb2'' ''application/fb2+zip''],
        entry_elem (Some ''War (copy)'') [link_elem ''/b/1/epub'' ''application/epub+zip'']]"

definition twice_env :: env where
  "twice_env = feed_env twice_xml twice_feed"

text \<open>A feed with one entry whose title element is empty.\<close>

definition untitled_xml :: string where
  "untitled_xml =
     ''<feed xmlns=\"http://www.w3.org/2005/Atom\">''
     @ ''<entry><title/><link rel=\"http://opds-spec.org/acquisition\" ''
     @ ''href=\"/b/1/fb2\" type=\"application/fb2+zip\"/></entry></feed>''"

definition untitled_feed :: element where
  "untitled_feed = feed_elem [entry_elem None [link_elem ''/b/1/fb2'' ''application/fb2+zip'']]"

definition untitled_env :: env where
  "untitled_env = feed_env untitled_xml untitled_feed"

text \<open>A status callback that raises.\<close>

definition failing_callback :: callback where
  "failing_callback msg = Some OtherException"

subsection \<open>Downloads\<close>

text \<open>A server that sends the file with the given \<open>Content-Disposition\<close> header, or
  without one.\<close>

definition file_env :: "string option \<Rightarrow> env" where
  "file_env content_disposition =
     \<lparr>client_get = (\<lambda>tr url. Inr \<lparr>status_code = 200, resp_text = [],
                                    headers = (\<lambda>k. if k = ''Content-Disposition''
                                                     then content_disposition else None),
                                    resp_content = ''FictionBook''\<rparr>),
      fromstring = (\<lambda>s. Inl ParseError),
      urljoin = (\<lambda>base href. base @ href),
      str_lower = ascii_lower,
      re_search1 = ascii_search1,
      re_search2 = (\<lambda>p s. None),
      re_finditer2 = (\<lambda>p s. [])\<rparr>"

text \<open>Two headers with an apostrophe: a file name that contains one, and the extended
  form \<^verbatim>\<open>filename*=\<close> of RFC 6266 before the plain one.\<close>

definition apostrophe_header :: string where
  "apostrophe_header = ''filename=\"it'' @ [CHR 0x27] @ ''s.fb2\"''"

definition extended_header :: string where
  "extended_header =
     ''attachment; filename*=UTF-8'' @ [CHR 0x27, CHR 0x27] @ ''x.fb2; filename=\"y.fb2\"''"

section \<open>Properties of the model\<close>

subsection \<open>Strings\<close>

lemma contains_iff_sublist: "contains needle hay \<longleftrightarrow> sublist needle hay"
  by (induction hay) (auto simp: sublist_Cons_right)

lemma digit_char_value: "d < 10 \<Longrightarrow> of_char (digit_char d) = 48 + d"
proof -
  assume "d < 10"
  then have "d \<in> {0, 1, 2, 3, 4, 5, 6, 7, 8, 9}" by auto
  then show ?thesis by (auto simp: digit_char_def)
qed

lemma str_nat_value:
  "foldl (\<lambda>a c. 10 * a + (of_char c - 48)) 0 (str_nat n) = n"
proof (induction n rule: str_nat.induct)
  case (1 n)
  show ?case
  proof (cases "n < 10")
    case True
    then show ?thesis by (subst str_nat.simps) (simp add: digit_char_value)
  next
    case False
    then have "foldl (\<lambda>a c. 10 * a + (of_char c - 48)) 0 (str_nat (n div 10)) = n div 10"
      using 1 by simp
    then show ?thesis
      using False by (subst str_nat.simps) (simp add: digit_char_value)
  qed
qed

lemma split_on_nonempty: "split_on c s \<noteq> []"
  by (induction s) (auto split: list.splits)

lemma length_split_on: "length (split_on c s) = Suc (length (filter (\<lambda>x. x = c) s))"
  by (induction s) (auto split: list.splits simp: split_on_nonempty)

lemma takeWhile_snoc:
  "takeWhile P (ys @ [x]) =
     (if \<forall>y\<in>set ys. P y then ys @ (if P x then [x] else []) else takeWhile P ys)"
  by (induction ys) auto

lemma last_split_on: "last (split_on c s) = rev (takeWhile (\<lambda>x. x \<noteq> c) (rev s))"
proof (induction s)
  case Nil
  then show ?case by simp
next
  case (Cons x xs)
  obtain w ws where sp: "split_on c xs = w # ws"
    using split_on_nonempty [of c xs] by (cases "split_on c xs") auto
  have len: "length ws = length (filter (\<lambda>x. x = c) xs)"
    using length_split_on [of c xs] sp by simp
  show ?case
  proof (cases "x = c")
    case True
    then show ?thesis using Cons.IH sp by (simp add: takeWhile_snoc)
  next
    case False
    show ?thesis
    proof (cases "c \<in> set xs")
      case True
      then have "filter (\<lambda>x. x = c) xs \<noteq> []" by (auto simp: filter_empty_conv)
      then have "ws \<noteq> []" using len by auto
      then show ?thesis using sp Cons.IH False True by (auto simp: takeWhile_snoc)
    next
      case False
      then have "filter (\<lambda>x. x = c) xs = []" by (auto simp: filter_empty_conv)
      then have "ws = []" using len by auto
      moreover have tw: "takeWhile (\<lambda>x. x \<noteq> c) (rev xs) = rev xs"
        using False by auto
      ultimately show ?thesis using sp Cons.IH \<open>x \<noteq> c\<close> False by (simp add: takeWhile_snoc tw)
    qed
  qed
qed

lemma unquote_to_bytes_nonempty: "s \<noteq> [] \<Longrightarrow> unquote_to_bytes s \<noteq> []"
  by (cases s rule: unquote_to_bytes.cases) (auto split: option.splits)

lemma utf8_replace_nonempty: "s \<noteq> [] \<Longrightarrow> utf8_replace s \<noteq> []"
proof (cases s)
  case Nil
  assume "s \<noteq> []"
  with Nil show ?thesis by simp
next
  case (Cons c cs)
  have "utf8_replace (c # cs) \<noteq> []"
    by (subst utf8_replace.simps)
       (simp add: REPLACEMENT_def split: list.splits del: utf8_replace.simps)
  with Cons show ?thesis by simp
qed

lemma unquoted_parts_nonempty: "s \<noteq> [] \<Longrightarrow> unquoted_parts s \<noteq> []"
proof (cases s)
  case Nil
  assume "s \<noteq> []"
  with Nil show ?thesis by simp
next
  case (Cons c cs)
  show ?thesis
  proof (cases "ascii c")
    case True
    then have "takeWhile ascii (c # cs) \<noteq> []" by simp
    then have "utf8_replace (unquote_to_bytes (takeWhile ascii (c # cs))) \<noteq> []"
      by (intro utf8_replace_nonempty unquote_to_bytes_nonempty)
    with True Cons show ?thesis by simp
  next
    case False
    with Cons show ?thesis by simp
  qed
qed

lemma unquote_nonempty: "s \<noteq> [] \<Longrightarrow> unquote s \<noteq> []"
  by (simp add: unquote_def unquoted_parts_nonempty)

lemma search_filename_skip:
  "CHR ''f'' \<notin> set pre \<Longrightarrow> search_filename (pre @ CHR ''f'' # s) = search_filename (CHR ''f'' # s)"
  by (induction pre) (auto simp: match_filename_def)

lemma search_filename_quoted:
  assumes "CHR ''f'' \<notin> set pre" and "v \<noteq> []" and "\<forall>c\<in>set v. filename_char c"
  shows "search_filename (pre @ ''filename=\"'' @ v @ ''\"'' @ rest) = Some v"
proof -
  have "takeWhile filename_char (v @ CHR 0x22 # rest) = v"
    using assms(3) by (simp add: filename_char_def)
  then have "match_filename (''filename=\"'' @ v @ ''\"'' @ rest) = Some v"
    using assms(2) by (simp add: match_filename_def)
  then have "search_filename (''filename=\"'' @ v @ ''\"'' @ rest) = Some v"
    by simp
  then show ?thesis
    using search_filename_skip [OF assms(1), of "''ilename=\"'' @ v @ ''\"'' @ rest"] by simp
qed

subsection \<open>Records\<close>

lemma mk_book_sel [simp]:
  "book_id (mk_book i t as lang descr links) = i"
  "title (mk_book i t as lang descr links) = t"
  "authors (mk_book i t as lang descr links) = as"
  "download_links (mk_book i t as lang descr links) = links"
  by (simp_all add: mk_book_def)

lemma mk_author_sel [simp]:
  "author_id (mk_author i n u) = i"
  "author_name (mk_author i n u) = n"
  "author_uri (mk_author i n u) = u"
  by (simp_all add: mk_author_def)

lemma mk_result_sel [simp]:
  "items (mk_result xs hm src) = xs"
  "has_more (mk_result xs hm src) = hm"
  "source (mk_result xs hm src) = src"
  "total_count (mk_result xs hm src) = 0"
  by (simp_all add: mk_result_def)

lemma not_usable_iff:
  "\<not> usable result \<longleftrightarrow> result = None \<or> (\<exists>r. result = Some r \<and> items r = [])"
  by (cases result) (auto simp: usable_def)

subsection \<open>Requests and their trace\<close>

lemma http_request_trace: "snd (http_request env tr url) = tr @ [HTTP_request url]"
  by (simp add: http_request_def)

lemma opds_request_trace: "snd (opds_request env tr url) = tr @ [OPDS_request url]"
  by (simp add: opds_request_def)

lemma request_failure_absent:
  "client_get env tr url = Inl HTTPError \<or>
   (\<exists>r. client_get env tr url = Inr r \<and> \<not> (200 \<le> status_code r \<and> status_code r < 300)) \<Longrightarrow>
   http_request env tr url = (Inr None, tr @ [HTTP_request url])
   \<and> opds_request env tr url = (Inr None, tr @ [OPDS_request url])
   \<and> download_book env tr url = (Inr None, tr @ [Download_request url])"
  by (auto simp: http_request_def opds_request_def download_book_def get_text_def
      raise_for_status_def)

lemma http_search_books_trace:
  "\<exists>url. snd (http_search_books env tr query page) = tr @ [HTTP_request url]"
  by (auto simp: http_search_books_def http_request_def Let_def split: prod.splits sum.splits option.splits)

lemma http_search_books_source:
  "http_search_books env tr query page = (Inr (Some r), tr') \<Longrightarrow> source r = ''http''"
  by (auto simp: http_search_books_def http_request_def Let_def mk_result_def
      split: prod.splits sum.splits option.splits if_splits)

lemma http_search_authors_trace:
  "\<exists>url. snd (http_search_authors env tr query) = tr @ [HTTP_request url]"
  by (auto simp: http_search_authors_def http_request_def Let_def split: prod.splits sum.splits option.splits)

lemma http_search_authors_source:
  "http_search_authors env tr query = (Inr (Some r), tr') \<Longrightarrow> source r = ''http''"
  by (auto simp: http_search_authors_def http_request_def Let_def mk_result_def
      split: prod.splits sum.splits option.splits if_splits)

lemma parse_author_page_source:
  "parse_author_page env aid html = Some r \<Longrightarrow> source r = ''http''"
  by (auto simp: parse_author_page_def mk_result_def split: sum.splits)

lemma http_get_author_books_trace:
  "\<exists>urls. snd (http_get_author_books env tr aid) = tr @ map HTTP_request urls"
proof -
  let ?u1 = "FLIBUSTA_BASE_URL @ ''/a/'' @ aid @ ''/alphabet''"
  let ?u2 = "FLIBUSTA_BASE_URL @ ''/a/'' @ aid"
  have "snd (http_get_author_books env tr aid) = tr @ map HTTP_request [?u1]
      \<or> snd (http_get_author_books env tr aid) = tr @ map HTTP_request [?u1, ?u2]"
    by (auto simp: http_get_author_books_def http_request_def
        split: prod.splits sum.splits option.splits list.splits)
  then show ?thesis by blast
qed

lemma http_get_author_books_source:
  "http_get_author_books env tr aid = (Inr (Some r), tr') \<Longrightarrow> source r = ''http''"
  by (auto simp: http_get_author_books_def http_request_def
      split: prod.splits sum.splits option.splits if_splits list.splits
      dest: parse_author_page_source)

lemma opds_search_books_source:
  "opds_search_books env tr query page = (Inr (Some r), tr') \<Longrightarrow> source r = ''opds''"
  by (auto simp: opds_search_books_def opds_request_def Let_def mk_result_def
      split: prod.splits sum.splits option.splits if_splits)

lemma opds_search_books_trace:
  "\<exists>url. snd (opds_search_books env tr query page) = tr @ [OPDS_request url]"
  by (auto simp: opds_search_books_def opds_request_def Let_def split: prod.splits sum.splits option.splits)

lemma opds_search_authors_source:
  "opds_search_authors env tr query page = (Inr (Some r), tr') \<Longrightarrow> source r = ''opds''"
  by (auto simp: opds_search_authors_def opds_request_def Let_def mk_result_def
      split: prod.splits sum.splits option.splits if_splits)

lemma opds_search_authors_trace:
  "\<exists>url. snd (opds_search_authors env tr query page) = tr @ [OPDS_request url]"
  by (auto simp: opds_search_authors_def opds_request_def Let_def split: prod.splits sum.splits option.splits)

lemma author_feed_result_source:
  "author_feed_result env root = Inr (Some r) \<Longrightarrow> source r = ''opds''"
  by (auto simp: author_feed_result_def mk_result_def split: sum.splits)

lemma except_ParseError_Some:
  "except_ParseError x = Inr (Some r) \<Longrightarrow> x = Inr (Some r)"
  by (cases x) (auto split: if_splits)

lemma opds_get_author_books_source:
  "opds_get_author_books env tr aid = (Inr (Some r), tr') \<Longrightarrow> source r = ''opds''"
  by (auto simp: opds_get_author_books_def opds_request_def Let_def
      split: prod.splits sum.splits option.splits if_splits list.splits
      dest!: except_ParseError_Some dest: author_feed_result_source)

lemma opds_get_author_books_trace:
  "\<exists>url rest. snd (opds_get_author_books env tr aid) = tr @ OPDS_request url # rest"
  by (auto simp: opds_get_author_books_def opds_request_def Let_def
      split: prod.splits sum.splits option.splits list.splits)

subsection \<open>The fallback\<close>

lemma search_books_fallback:
  "http_search_books env tr query page = (Inr result, tr1) \<Longrightarrow> \<not> usable result \<Longrightarrow>
   search_books env tr query page cb = opds_search_books env (notify cb tr1) query page"
  by (simp add: search_books_def)

lemma search_authors_fallback:
  "http_search_authors env tr query = (Inr result, tr1) \<Longrightarrow> \<not> usable result \<Longrightarrow>
   search_authors env tr query page cb = opds_search_authors env (notify cb tr1) query page"
  by (simp add: search_authors_def)

lemma get_author_books_fallback:
  "http_get_author_books env tr aid = (Inr result, tr1) \<Longrightarrow> \<not> usable result \<Longrightarrow>
   get_author_books env tr aid page cb = opds_get_author_books env (notify cb tr1) aid"
  by (simp add: get_author_books_def)

lemma notify_raising:
  "f FALLBACK_MESSAGE = Some e \<Longrightarrow>
   notify (Some f) tr = tr @ [Status FALLBACK_MESSAGE, Callback_error e]"
  by (simp add: notify_def)

subsection \<open>Duplicates and order\<close>

lemma parse_search_line_title: "parse_search_line env line = Some b \<Longrightarrow> title b \<noteq> None"
  by (auto simp: parse_search_line_def Let_def mk_book_def split: if_splits option.splits prod.splits)

lemma map_filter_titles:
  "b \<in> set (List.map_filter (parse_search_line env) ls) \<Longrightarrow> title b \<noteq> None"
  by (auto simp: List.map_filter_def dest: parse_search_line_title)

lemma unique_books_subset: "set (unique_books seen bs) \<subseteq> set bs"
  by (induction bs arbitrary: seen) auto

lemma sort_by_title_total:
  "(\<And>b. b \<in> set bs \<Longrightarrow> title b \<noteq> None) \<Longrightarrow> sort_by_title env bs = Inr (sort_key (title_key env) bs)"
  by (auto simp: sort_by_title_def list_ex_iff)

lemma sort_by_title_Inr:
  "sort_by_title env bs = Inr bs' \<Longrightarrow> bs' = sort_key (title_key env) bs \<and> (\<forall>b\<in>set bs. title b \<noteq> None)"
  by (auto simp: sort_by_title_def list_ex_iff split: if_splits)

lemma http_search_books_fetched:
  assumes "http_request env tr (FLIBUSTA_BASE_URL @ ''/booksearch?ask='' @ quote query @ ''&page='' @ str_int page)
             = (Inr (Some t), tr')" and "t \<noteq> []"
  shows "http_search_books env tr query page =
     (Inr (Some (mk_result
        (sort_key (title_key env)
           (unique_books {} (List.map_filter (parse_search_line env) (split_on (CHR 0x0A) t))))
        (contains (''page='' @ str_int (page + 1)) t) ''http'')), tr')"
proof -
  let ?bs = "unique_books {} (List.map_filter (parse_search_line env) (split_on (CHR 0x0A) t))"
  have "sort_by_title env ?bs = Inr (sort_key (title_key env) ?bs)"
    using unique_books_subset map_filter_titles by (intro sort_by_title_total) blast
  then show ?thesis
    using assms by (simp add: http_search_books_def Let_def)
qed

lemma http_search_books_empty:
  assumes "http_request env tr (FLIBUSTA_BASE_URL @ ''/booksearch?ask='' @ quote query @ ''&page='' @ str_int page)
             = (Inr (Some []), tr')"
  shows "http_search_books env tr query page = (Inr None, tr')"
  using assms by (simp add: http_search_books_def Let_def)

lemma filter_unique_books:
  "filter (\<lambda>b. book_id b = i) (unique_books seen bs) =
     (if i \<in> seen then []
      else (case find (\<lambda>b. book_id b = i) bs of None \<Rightarrow> [] | Some b \<Rightarrow> [b]))"
proof (induction bs arbitrary: seen)
  case Nil
  then show ?case by simp
next
  case (Cons b bs)
  then show ?case by auto
qed

lemma distinct_unique_books:
  "distinct (map book_id (unique_books seen bs)) \<and> book_id ` set (unique_books seen bs) \<inter> seen = {}"
proof (induction bs arbitrary: seen)
  case Nil
  then show ?case by simp
next
  case (Cons b bs)
  show ?case
  proof (cases "book_id b \<in> seen")
    case True
    then show ?thesis using Cons.IH [of seen] by simp
  next
    case False
    then show ?thesis using Cons.IH [of "insert (book_id b) seen"] by auto
  qed
qed

lemma distinct_author_page_books:
  "distinct (map book_id (author_page_books env aid seen ms))
   \<and> book_id ` set (author_page_books env aid seen ms) \<inter> seen = {}"
proof (induction ms arbitrary: seen)
  case Nil
  then show ?case by simp
next
  case (Cons m ms)
  obtain bid raw where m: "m = (bid, raw)" by (cases m)
  show ?case
    using Cons.IH [of seen] Cons.IH [of "insert bid seen"]
    by (auto simp: m Let_def mk_book_def)
qed

lemma distinct_map_sort_key:
  "distinct (map g (sort_key f xs)) \<longleftrightarrow> distinct (map g xs)"
proof -
  have "mset (map g (sort_key f xs)) = mset (map g xs)" by simp
  then show ?thesis by (rule mset_eq_imp_distinct_iff)
qed

lemma sort_by_title_sorted:
  assumes "sort_by_title env bs = Inr bs'"
  shows "\<exists>ts. map title bs' = map Some ts \<and> sorted (map (str_lower env) ts)"
proof -
  from assms have eq: "bs' = sort_key (title_key env) bs" and all: "\<forall>b\<in>set bs. title b \<noteq> None"
    using sort_by_title_Inr by blast+
  have all': "\<forall>b\<in>set bs'. title b \<noteq> None" using all eq by simp
  let ?ts = "map (\<lambda>b. the (title b)) bs'"
  have "map title bs' = map Some ?ts" using all' by (induction bs') auto
  moreover have "map (str_lower env) ?ts = map (title_key env) bs'"
    using all' by (induction bs') (auto simp: title_key_def)
  moreover have "sorted (map (title_key env) bs')" unfolding eq by (rule sorted_sort_key)
  ultimately show ?thesis by metis
qed

lemma sort_by_title_example:
  assumes "str_lower env ''Zebra'' = ''zebra''" "str_lower env ''apple'' = ''apple''"
    "str_lower env ''Mango'' = ''mango''"
    "map title bs = [Some ''Zebra'', Some ''apple'', Some ''Mango'']"
  shows "map_sum id (map title) (sort_by_title env bs)
           = Inr [Some ''apple'', Some ''Mango'', Some ''Zebra'']"
proof -
  from assms(4) obtain b1 b2 b3 where bs: "bs = [b1, b2, b3]"
    and t: "title b1 = Some ''Zebra''" "title b2 = Some ''apple''" "title b3 = Some ''Mango''"
    by (auto simp: map_eq_Cons_conv)
  show ?thesis
    using assms(1-3) by (simp add: bs t sort_by_title_def title_key_def)
qed

subsection \<open>Entries without a title or an id\<close>

lemma html_untitled_entry_skipped:
  "re_search2 env BOOK_ANCHOR line = Some (bid, raw_title) \<Longrightarrow> clean_html raw_title = [] \<Longrightarrow>
   parse_search_line env line = None"
  by (simp add: parse_search_line_def)

lemma feed_entry_without_title_kept:
  "find_elem entry (atom ''title'') = None \<Longrightarrow> title (opds_parse_book env entry) = Some ''Unknown''"
  by (simp add: opds_parse_book_def Let_def)

lemma first_match_none: "\<forall>h\<in>set hs. f h = None \<Longrightarrow> first_match f hs = []"
  by (induction hs) auto

lemma feed_entry_without_id_kept:
  "\<forall>link\<in>set (findall entry (atom ''link'')). re_search1 env B_ID (attr_get link ''href'' []) = None
   \<Longrightarrow> book_id (opds_parse_book env entry) = []"
  by (simp add: opds_parse_book_def Let_def first_match_none)

subsection \<open>Formats and file names\<close>

lemma format_map_lookup: "(m, f) \<in> set format_map \<Longrightarrow> map_of format_map m = Some f"
  by (rule map_of_is_SomeI) (auto simp: format_map_def)

lemma format_map_miss: "m \<notin> fst ` set format_map \<Longrightarrow> map_of format_map m = None"
  by (simp add: map_of_eq_None_iff)

lemma takeWhile_maximal:
  assumes "list_all P v" and "case rest of [] \<Rightarrow> True | c # r \<Rightarrow> \<not> P c"
  shows "takeWhile P (v @ rest) = v"
  using assms by (cases rest) (auto simp: list_all_iff)

lemma match_filename_Some:
  assumes "match_filename s = Some v"
  shows "\<exists>r1 r3. s = ''filename'' @ r1
           \<and> (if prefix ''*'' r1 then tl r1 else r1) = CHR ''='' # r3
           \<and> v = takeWhile filename_char
                   (case r3 of [] \<Rightarrow> []
                    | q # r \<Rightarrow> if q = CHR 0x22 \<or> q = CHR 0x27 then r else r3)
           \<and> v \<noteq> []"
proof -
  from assms have p: "prefix ''filename'' s"
    unfolding match_filename_def by (simp split: if_splits)
  then obtain r1 where s: "s = ''filename'' @ r1" unfolding prefix_def by blast
  have d: "drop 8 s = r1" unfolding s by simp
  let ?r2 = "if prefix ''*'' r1 then tl r1 else r1"
  from assms have m: "(case ?r2 of [] \<Rightarrow> None
      | c # r3 \<Rightarrow> if c = CHR ''='' then
            (let r4 = (case r3 of [] \<Rightarrow> []
                       | q # r \<Rightarrow> if q = CHR 0x22 \<or> q = CHR 0x27 then r else r3);
                 g = takeWhile filename_char r4
             in if g = [] then None else Some g)
          else None) = Some v"
    unfolding match_filename_def d Let_def using p by (simp add: Let_def)
  then obtain c r3 where r2: "?r2 = c # r3" by (cases ?r2) simp_all
  from m have c: "c = CHR ''=''" unfolding r2 by (simp split: if_splits)
  from m have "v = takeWhile filename_char
                   (case r3 of [] \<Rightarrow> []
                    | q # r \<Rightarrow> if q = CHR 0x22 \<or> q = CHR 0x27 then r else r3)
           \<and> v \<noteq> []"
    unfolding r2 c Let_def by (simp split: if_splits)
  with s r2 c show ?thesis by blast
qed

lemma match_filename_pattern:
  assumes "match_filename s = Some v"
  shows "filename_pattern s v"
proof -
  from match_filename_Some [OF assms] obtain r1 r3 where s: "s = ''filename'' @ r1"
    and r2: "(if prefix ''*'' r1 then tl r1 else r1) = CHR ''='' # r3"
    and v: "v = takeWhile filename_char
                   (case r3 of [] \<Rightarrow> []
                    | q # r \<Rightarrow> if q = CHR 0x22 \<or> q = CHR 0x27 then r else r3)"
    and ne: "v \<noteq> []"
    by blast
  define star where "star = (if prefix ''*'' r1 then ''*'' else [])"
  have r1: "r1 = star @ CHR ''='' # r3" and st: "star = [] \<or> star = ''*''"
    using r2 unfolding star_def by (auto simp: prefix_def split: if_splits)
  define q where "q = (case r3 of [] \<Rightarrow> [] | x # r \<Rightarrow> if x = CHR 0x22 \<or> x = CHR 0x27 then [x] else [])"
  define r4 where "r4 = (case r3 of [] \<Rightarrow> [] | x # r \<Rightarrow> if x = CHR 0x22 \<or> x = CHR 0x27 then r else r3)"
  have r3: "r3 = q @ r4" and qq: "q = [] \<or> q = [CHR 0x22] \<or> q = [CHR 0x27]"
    unfolding q_def r4_def by (auto split: list.splits)
  have v': "v = takeWhile filename_char r4" unfolding v r4_def ..
  define rest where "rest = dropWhile filename_char r4"
  have r4: "r4 = v @ rest" unfolding v' rest_def by simp
  have all: "list_all filename_char v"
    unfolding v' by (auto simp: list_all_iff dest: set_takeWhileD)
  have mx: "case rest of [] \<Rightarrow> True | c # r \<Rightarrow> \<not> filename_char c"
  proof (cases rest)
    case Nil
    then show ?thesis by simp
  next
    case (Cons c r)
    then have "dropWhile filename_char r4 \<noteq> []" unfolding rest_def by simp
    from hd_dropWhile [OF this] Cons show ?thesis unfolding rest_def by simp
  qed
  have "s = ''filename'' @ star @ ''='' @ q @ v @ rest"
    using s r1 r3 r4 by simp
  then show ?thesis
    unfolding filename_pattern_def using st qq ne all mx by blast
qed

lemma pattern_match_filename:
  assumes "filename_pattern s v"
  shows "match_filename s = Some v"
proof -
  from assms obtain star q rest where
    s: "s = ''filename'' @ star @ ''='' @ q @ v @ rest"
    and st: "star = [] \<or> star = ''*''"
    and qq: "q = [] \<or> q = [CHR 0x22] \<or> q = [CHR 0x27]"
    and ne: "v \<noteq> []" and all: "list_all filename_char v"
    and mx: "case rest of [] \<Rightarrow> True | c # r \<Rightarrow> \<not> filename_char c"
    unfolding filename_pattern_def by blast
  have tw: "takeWhile filename_char (v @ rest) = v"
    using all mx by (rule takeWhile_maximal)
  obtain x xs where v: "v = x # xs" using ne by (cases v) auto
  have x: "x \<noteq> CHR 0x22" "x \<noteq> CHR 0x27"
    using all v by (auto simp: filename_char_def)
  have r4: "(case q @ v @ rest of [] \<Rightarrow> [] | y # r \<Rightarrow> if y = CHR 0x22 \<or> y = CHR 0x27 then r else q @ v @ rest) = v @ rest"
    using qq x v by auto
  have "match_filename (''filename'' @ star @ ''='' @ q @ v @ rest) = Some v"
    using st
  proof
    assume "star = []"
    then show ?thesis
      using r4 tw ne by (simp add: match_filename_def Let_def)
  next
    assume "star = ''*''"
    then show ?thesis
      using r4 tw ne by (simp add: match_filename_def Let_def)
  qed
  then show ?thesis using s by simp
qed

lemma match_filename_iff: "match_filename s = Some v \<longleftrightarrow> filename_pattern s v"
  using match_filename_pattern pattern_match_filename by blast

lemma search_leftmost_match:
  "search_filename cd = Some v \<Longrightarrow> leftmost_match cd v"
proof (induction cd)
  case Nil
  then show ?case by simp
next
  case (Cons c cs)
  show ?case
  proof (cases "match_filename (c # cs)")
    case (Some g)
    with Cons.prems have "g = v" by simp
    with Some have m: "filename_pattern (c # cs) v" by (simp add: match_filename_iff)
    have "c # cs = [] @ c # cs \<and> filename_pattern (c # cs) v
        \<and> (\<forall>pre' s' v'. c # cs = pre' @ s' \<and> length pre' < length ([] :: string)
              \<longrightarrow> \<not> filename_pattern s' v')"
      using m by simp
    then show ?thesis
      unfolding leftmost_match_def by (rule_tac x = "[]" in exI, rule_tac x = "c # cs" in exI)
  next
    case None
    with Cons.prems have "search_filename cs = Some v" by simp
    then have "leftmost_match cs v" by (rule Cons.IH)
    then obtain pre s where cs: "cs = pre @ s" and m: "filename_pattern s v"
      and e: "\<And>pre' s' v'. cs = pre' @ s' \<Longrightarrow> length pre' < length pre \<Longrightarrow> \<not> filename_pattern s' v'"
      unfolding leftmost_match_def by auto
    have ne: "\<not> filename_pattern s' v'" if "c # cs = pre' @ s'" and "length pre' < length (c # pre)"
      for pre' s' v'
    proof (cases pre')
      case Nil
      with that have "s' = c # cs" by simp
      with None show ?thesis by (simp add: match_filename_iff [symmetric])
    next
      case (Cons x xs)
      with that have "cs = xs @ s'" and "length xs < length pre" by auto
      then show ?thesis by (rule e)
    qed
    have "\<forall>pre' s' v'. c # cs = pre' @ s' \<and> length pre' < length (c # pre)
              \<longrightarrow> \<not> filename_pattern s' v'"
    proof (intro allI impI)
      fix pre' s' v'
      assume "c # cs = pre' @ s' \<and> length pre' < length (c # pre)"
      then show "\<not> filename_pattern s' v'" using ne by simp
    qed
    moreover have "c # cs = (c # pre) @ s" using cs by simp
    ultimately have "c # cs = (c # pre) @ s \<and> filename_pattern s v
        \<and> (\<forall>pre' s' v'. c # cs = pre' @ s' \<and> length pre' < length (c # pre)
              \<longrightarrow> \<not> filename_pattern s' v')"
      using m by (intro conjI)
    then show ?thesis
      unfolding leftmost_match_def by (rule_tac x = "c # pre" in exI, rule_tac x = s in exI)
  qed
qed

lemma leftmost_match_search:
  assumes "leftmost_match cd v"
  shows "search_filename cd = Some v"
proof -
  from assms obtain pre s where cd: "cd = pre @ s" and m: "filename_pattern s v"
    and e: "\<forall>pre' s' v'. cd = pre' @ s' \<and> length pre' < length pre \<longrightarrow> \<not> filename_pattern s' v'"
    unfolding leftmost_match_def by blast
  from m e show ?thesis unfolding cd
  proof (induction pre)
    case Nil
    then have ms: "match_filename s = Some v" by (simp add: match_filename_iff)
    then have "s \<noteq> []" by (auto simp: match_filename_def)
    then obtain c cs where "s = c # cs" by (cases s) auto
    with ms show ?case by simp
  next
    case (Cons p ps)
    have "\<not> filename_pattern ((p # ps) @ s) v'" for v'
      using Cons.prems(2) [rule_format, of "[]" "(p # ps) @ s" v'] by simp
    then have none: "match_filename (p # ps @ s) = None"
      by (cases "match_filename (p # ps @ s)") (auto simp: match_filename_iff)
    have "\<forall>pre' s' v'. ps @ s = pre' @ s' \<and> length pre' < length ps \<longrightarrow> \<not> filename_pattern s' v'"
    proof (intro allI impI)
      fix pre' s' v'
      assume a: "ps @ s = pre' @ s' \<and> length pre' < length ps"
      then have "(p # ps) @ s = (p # pre') @ s' \<and> length (p # pre') < length (p # ps)" by simp
      with Cons.prems(2) show "\<not> filename_pattern s' v'" by blast
    qed
    with Cons.IH Cons.prems(1) have "search_filename (ps @ s) = Some v" by blast
    with none show ?case by simp
  qed
qed

lemma search_filename_iff: "search_filename cd = Some v \<longleftrightarrow> leftmost_match cd v"
  using search_leftmost_match leftmost_match_search by blast

lemma last_segment:
  assumes "after_last_slash url seg"
  shows "last (split_on (CHR ''/'') url) = seg"
proof -
  from assms have n: "CHR ''/'' \<notin> set seg"
    and u: "url = seg \<or> (\<exists>pre. url = pre @ ''/'' @ seg)"
    unfolding after_last_slash_def by auto
  have t: "takeWhile (\<lambda>x. x \<noteq> CHR ''/'') (rev seg) = rev seg"
    by (rule takeWhile_eq_all_conv [THEN iffD2]) (use n in auto)
  from u show ?thesis
  proof
    assume "url = seg"
    with t show ?thesis by (simp only: last_split_on rev_rev_ident)
  next
    assume "\<exists>pre. url = pre @ ''/'' @ seg"
    then obtain pre where "url = pre @ ''/'' @ seg" ..
    then have "rev url = rev seg @ CHR ''/'' # rev pre" by simp
    then have "takeWhile (\<lambda>x. x \<noteq> CHR ''/'') (rev url) = rev seg"
      using n by (auto simp: takeWhile_tail)
    then show ?thesis by (simp add: last_split_on)
  qed
qed

lemma search_example: "search_filename ''filename=\"book%20one.fb2\"'' = Some ''book%20one.fb2''"
  by code_simp

lemma strip_example: "strip ''book%20one.fb2'' = ''book%20one.fb2''"
  by code_simp

lemma unquote_example: "unquote ''book%20one.fb2'' = ''book one.fb2''"
  by code_simp

lemma contains_example: "contains ''filename='' ''filename=\"book%20one.fb2\"''"
  by code_simp

lemma derive_filename_header_example:
  "derive_filename ''filename=\"book%20one.fb2\"'' url = ''book one.fb2''"
  by (simp add: derive_filename_def contains_example search_example strip_example unquote_example
           del: contains.simps search_filename.simps)

lemma derive_filename_url_example:
  "derive_filename [] ''http://flibusta.is/b/123/epub'' = ''book''"
  by code_simp

lemma derive_filename_header:
  assumes "sublist ''filename='' cd" and "leftmost_match cd v" and "strip v \<noteq> []"
  shows "derive_filename cd url
           = (if CHR ''%'' \<in> set (strip v) then unquote (strip v) else strip v)"
proof -
  have c: "contains ''filename='' cd" using assms(1) by (simp add: contains_iff_sublist)
  have s: "search_filename cd = Some v" using assms(2) by (simp add: search_filename_iff)
  let ?f = "if CHR ''%'' \<in> set (strip v) then unquote (strip v) else strip v"
  have "?f \<noteq> []" using assms(3) unquote_nonempty by simp
  then obtain x xs where f: "?f = x # xs" by (cases ?f) auto
  have "derive_filename cd url = (case Some ?f of Some (c # cs) \<Rightarrow> c # cs
      | _ \<Rightarrow> (let segment = last (split_on (CHR ''/'') url)
              in if CHR ''.'' \<notin> set segment then ''book'' else segment))"
    unfolding derive_filename_def Let_def using c s by simp
  also have "\<dots> = ?f" unfolding f by simp
  finally show ?thesis .
qed

lemma derive_filename_url:
  assumes "\<forall>v. sublist ''filename='' cd \<and> leftmost_match cd v \<longrightarrow> strip v = []"
    and "after_last_slash url seg"
  shows "derive_filename cd url = (if CHR ''.'' \<in> set seg then seg else ''book'')"
proof -
  have l: "last (split_on (CHR ''/'') url) = seg" using assms(2) by (rule last_segment)
  have "(if contains ''filename='' cd then
           (case search_filename cd of None \<Rightarrow> None
            | Some g \<Rightarrow> (let f = strip g in
                         Some (if CHR ''%'' \<in> set f then unquote f else f)))
         else None) \<in> {None, Some []}"
  proof (cases "contains ''filename='' cd")
    case False
    then show ?thesis by simp
  next
    case True
    show ?thesis
    proof (cases "search_filename cd")
      case None
      with True show ?thesis by simp
    next
      case (Some g)
      then have "leftmost_match cd g" by (simp add: search_filename_iff)
      with True assms(1) have "strip g = []" by (simp add: contains_iff_sublist)
      with True Some show ?thesis by (simp add: Let_def)
    qed
  qed
  then show ?thesis
    unfolding derive_filename_def Let_def l by auto
qed

lemma unquote_invalid_byte:
  "unquote ''a%FFb.fb2'' = ''a'' @ REPLACEMENT @ ''b.fb2''"
  by code_simp

lemma unquote_two_bytes: "unquote ''%C3%A9.fb2'' = [CHR 0xC3, CHR 0xA9] @ ''.fb2''"
  by code_simp

lemma unquote_cut_sequence: "unquote ''%E2%82.fb2'' = REPLACEMENT @ ''.fb2''"
  by code_simp

lemma unquote_surrogate: "unquote ''%ED%A0%80'' = REPLACEMENT @ REPLACEMENT @ REPLACEMENT"
  by code_simp

lemma unquote_no_digits: "unquote ''100%.fb2'' = ''100%.fb2''"
  by code_simp

lemma derive_filename_apostrophe:
  "derive_filename apostrophe_header ''http://flibusta.is/b/123/fb2'' = ''it''"
  by code_simp

lemma derive_filename_extended:
  "derive_filename extended_header ''http://flibusta.is/b/123/fb2'' = ''UTF-8''"
  by code_simp

lemma derive_filename_blank:
  "derive_filename ''filename=\" \"'' ''http://flibusta.is/files/book.one.fb2'' = ''book.one.fb2''"
  by code_simp

lemma derive_filename_query:
  "derive_filename [] ''http://flibusta.is/b/123/fb2?f=a/b.c'' = ''b.c''"
  by code_simp

lemma search_blank: "search_filename ''filename=\" \"'' = Some '' ''"
  by code_simp

lemma strip_blank: "strip '' '' = []"
  by code_simp

lemma contains_blank: "contains ''filename='' ''filename=\" \"''"
  by code_simp

section \<open>The model on the concrete environments\<close>

subsection \<open>The catalog whose HTML source answers\<close>

lemma quote_war: "quote ''war'' = ''war''" by code_simp

lemma str_int_0: "str_int 0 = ''0''" by code_simp

lemma str_int_1: "str_int 1 = ''1''" by code_simp

lemma str_int_2: "str_int 2 = ''2''" by code_simp

lemma search_page_next: "contains (''page=1'') search_page" by code_simp

lemma html_env_simps [simp]:
  "client_get html_env = html_get"
  "str_lower html_env = ascii_lower"
  "re_search1 html_env = html_search1"
  "re_search2 html_env = html_search2"
  "re_finditer2 html_env = html_finditer2"
  by (simp_all add: html_env_def)

lemma clean_zebra: "clean_html ''Zebra'' = ''Zebra''" by code_simp

lemma clean_apple: "clean_html ''apple'' = ''apple''" by code_simp

lemma clean_mango: "clean_html ''Mango'' = ''Mango''" by code_simp

lemma clean_zebra2: "clean_html ''Zebra (second edition)'' = ''Zebra (second edition)''" by code_simp

lemma clean_ann: "clean_html ''Ann Lee'' = ''Ann Lee''" by code_simp

lemma clean_fb2: "clean_html ''fb2'' = ''fb2''" by code_simp

lemma lower_zebra: "ascii_lower ''Zebra'' = ''zebra''" by code_simp

lemma lower_apple: "ascii_lower ''apple'' = ''apple''" by code_simp

lemma lower_mango: "ascii_lower ''Mango'' = ''mango''" by code_simp

lemma lower_ann: "ascii_lower ''Ann Lee'' = ''ann lee''" by code_simp

lemma no_series:
  "\<not> contains ''/s/'' zebra_line" "\<not> contains ''/s/'' apple_line"
  "\<not> contains ''/s/'' mango_line" "\<not> contains ''/s/'' zebra2_line"
  "\<not> contains ''/s/'' next_line"
  by code_simp+

lemmas line_defs = zebra_line_def apple_line_def mango_line_def zebra2_line_def next_line_def

lemma book_anchors:
  "html_search2 BOOK_ANCHOR zebra_line = Some (''3'', ''Zebra'')"
  "html_search2 BOOK_ANCHOR apple_line = Some (''1'', ''apple'')"
  "html_search2 BOOK_ANCHOR mango_line = Some (''2'', ''Mango'')"
  "html_search2 BOOK_ANCHOR zebra2_line = Some (''3'', ''Zebra (second edition)'')"
  "html_search2 BOOK_ANCHOR next_line = None"
  by (simp_all add: html_search2_def line_defs)

lemma author_anchors:
  "html_search2 AUTHOR_ANCHOR zebra_line = Some (''7'', ''Ann Lee'')"
  "html_search2 AUTHOR_ANCHOR apple_line = None"
  "html_search2 AUTHOR_ANCHOR mango_line = None"
  "html_search2 AUTHOR_ANCHOR zebra2_line = None"
  by (simp_all add: html_search2_def line_defs)

lemma parse_zebra_line: "parse_search_line html_env zebra_line
   = Some (mk_book ''3'' (Some ''Zebra'') [ann_lee] None None (synth_links ''3''))"
  by (simp add: parse_search_line_def no_series book_anchors author_anchors clean_zebra clean_ann
      ann_lee_def)

lemma parse_apple_line: "parse_search_line html_env apple_line
   = Some (mk_book ''1'' (Some ''apple'') [] None None (synth_links ''1''))"
  by (simp add: parse_search_line_def no_series book_anchors author_anchors clean_apple)

lemma parse_mango_line: "parse_search_line html_env mango_line
   = Some (mk_book ''2'' (Some ''Mango'') [] None None (synth_links ''2''))"
  by (simp add: parse_search_line_def no_series book_anchors author_anchors clean_mango)

lemma parse_zebra2_line: "parse_search_line html_env zebra2_line
   = Some (mk_book ''3'' (Some ''Zebra (second edition)'') [] None None (synth_links ''3''))"
  by (simp add: parse_search_line_def no_series book_anchors author_anchors clean_zebra2)

lemma parse_next_line: "parse_search_line html_env next_line = None"
  by (simp add: parse_search_line_def no_series book_anchors)

lemma search_page_lines:
  "split_on (CHR 0x0A) search_page = [zebra_line, apple_line, mango_line, zebra2_line, next_line]"
  by code_simp

lemma search_page_books:
  "List.map_filter (parse_search_line html_env) (split_on (CHR 0x0A) search_page) =
   [mk_book ''3'' (Some ''Zebra'') [ann_lee] None None (synth_links ''3''),
    mk_book ''1'' (Some ''apple'') [] None None (synth_links ''1''),
    mk_book ''2'' (Some ''Mango'') [] None None (synth_links ''2''),
    mk_book ''3'' (Some ''Zebra (second edition)'') [] None None (synth_links ''3'')]"
  by (simp add: search_page_lines List.map_filter_def parse_zebra_line parse_apple_line
      parse_mango_line parse_zebra2_line parse_next_line)

lemma search_url:
  "FLIBUSTA_BASE_URL @ ''/booksearch?ask='' @ quote ''war'' @ ''&page='' @ str_int 0
   = ''http://flibusta.is/booksearch?ask=war&page=0''"
  by (simp add: FLIBUSTA_BASE_URL_def quote_war str_int_0)

lemma search_page_fetched:
  "http_request html_env [] ''http://flibusta.is/booksearch?ask=war&page=0''
   = (Inr (Some search_page), [HTTP_request ''http://flibusta.is/booksearch?ask=war&page=0''])"
  by (simp add: http_request_def get_text_def html_get_def raise_for_status_def)

lemma html_title_keys:
  "title_key html_env (mk_book i (Some ''Zebra'') as l d ls) = ''zebra''"
  "title_key html_env (mk_book i (Some ''apple'') as l d ls) = ''apple''"
  "title_key html_env (mk_book i (Some ''Mango'') as l d ls) = ''mango''"
  by (simp_all add: title_key_def lower_zebra lower_apple lower_mango)

lemma html_search_books_eval:
  "http_search_books html_env [] ''war'' 0 =
     (Inr (Some search_result), [HTTP_request ''http://flibusta.is/booksearch?ask=war&page=0''])"
proof -
  have ne: "search_page \<noteq> []" by (simp add: search_page_def zebra_line_def)
  have more: "contains (''page='' @ str_int (0 + 1)) search_page"
    using search_page_next by (simp add: str_int_1)
  show ?thesis
    using http_search_books_fetched [of html_env "[]" "''war''" 0 search_page, unfolded search_url,
        OF search_page_fetched ne] more
    by (simp add: search_page_books html_title_keys search_result_def)
qed

lemma last_page_eval:
  "http_search_books html_env [] ''war'' 1 =
     (Inr (Some (mk_result [mk_book ''1'' (Some ''apple'') [] None None (synth_links ''1'')]
                   False ''http'')),
      [HTTP_request ''http://flibusta.is/booksearch?ask=war&page=1''])"
proof -
  have u: "FLIBUSTA_BASE_URL @ ''/booksearch?ask='' @ quote ''war'' @ ''&page='' @ str_int 1
     = ''http://flibusta.is/booksearch?ask=war&page=1''"
    by (simp add: FLIBUSTA_BASE_URL_def quote_war str_int_1)
  have r: "http_request html_env [] ''http://flibusta.is/booksearch?ask=war&page=1''
     = (Inr (Some last_page), [HTTP_request ''http://flibusta.is/booksearch?ask=war&page=1''])"
    by (simp add: http_request_def get_text_def html_get_def raise_for_status_def)
  have ne: "last_page \<noteq> []" by (simp add: last_page_def apple_line_def)
  have sp: "split_on (CHR 0x0A) last_page = [apple_line]"
    unfolding last_page_def by code_simp
  have nm: "\<not> contains (''page='' @ str_int (1 + 1)) last_page"
    unfolding last_page_def by (simp add: str_int_2) code_simp
  show ?thesis
    using http_search_books_fetched [of html_env "[]" "''war''" 1 last_page, unfolded u, OF r ne] nm
    by (simp add: sp List.map_filter_def parse_apple_line)
qed

lemma html_search_authors_eval:
  "http_search_authors html_env [] ''war'' =
     (Inr (Some authors_result), [HTTP_request ''http://flibusta.is/booksearch?ask=war''])"
proof -
  have u: "FLIBUSTA_BASE_URL @ ''/booksearch?ask='' @ quote ''war'' = ''http://flibusta.is/booksearch?ask=war''"
    by (simp add: FLIBUSTA_BASE_URL_def quote_war)
  have r: "http_request html_env [] ''http://flibusta.is/booksearch?ask=war''
     = (Inr (Some authors_page), [HTTP_request ''http://flibusta.is/booksearch?ask=war''])"
    by (simp add: http_request_def get_text_def html_get_def raise_for_status_def)
  have ne: "authors_page \<noteq> []" by (simp add: authors_page_def)
  show ?thesis
    unfolding http_search_authors_def u
    by (simp add: r ne html_search1_def html_finditer2_def clean_ann sort_by_name_def
        authors_result_def)
qed

lemma html_author_books_eval:
  "http_get_author_books html_env [] ''7'' =
     (Inr (Some author_books_result), [HTTP_request ''http://flibusta.is/a/7/alphabet''])"
proof -
  have u: "FLIBUSTA_BASE_URL @ ''/a/'' @ ''7'' @ ''/alphabet'' = ''http://flibusta.is/a/7/alphabet''"
    by (simp add: FLIBUSTA_BASE_URL_def)
  obtain c cs where ne: "author_page = c # cs"
    by (simp add: author_page_def)
  have r: "http_request html_env [] ''http://flibusta.is/a/7/alphabet''
     = (Inr (Some (c # cs)), [HTTP_request ''http://flibusta.is/a/7/alphabet''])"
    by (simp add: http_request_def get_text_def html_get_def raise_for_status_def ne)
  have labels: "ascii_lower ''Mango'' \<notin> set ACTION_LABELS" "ascii_lower ''apple'' \<notin> set ACTION_LABELS"
    by (simp_all add: lower_mango lower_apple ACTION_LABELS_def)
  have p: "parse_author_page html_env ''7'' author_page = Some author_books_result"
    by (simp add: parse_author_page_def html_finditer2_def clean_mango clean_apple clean_fb2
        labels sort_by_title_def html_title_keys author_books_result_def)
  show ?thesis
    unfolding http_get_author_books_def u
    by (simp add: r p [unfolded ne])
qed

lemma zebra_first:
  "find (\<lambda>b. book_id b = ''3'')
     (List.map_filter (parse_search_line html_env) (split_on (CHR 0x0A) search_page))
   = Some (mk_book ''3'' (Some ''Zebra'') [ann_lee] None None (synth_links ''3''))"
  by (simp add: search_page_books)

subsection \<open>The catalogs whose HTML source is down\<close>

lemma feed_env_simps [simp]:
  "client_get (feed_env xml root) = feed_get xml"
  "fromstring (feed_env xml root) = (\<lambda>s. if s = xml then Inr root else Inl ParseError)"
  "urljoin (feed_env xml root) = (\<lambda>base href. base @ href)"
  "str_lower (feed_env xml root) = ascii_lower"
  "re_search1 (feed_env xml root) = ascii_search1"
  "re_search2 (feed_env xml root) = (\<lambda>p s. None)"
  "re_finditer2 (feed_env xml root) = (\<lambda>p s. [])"
  by (simp_all add: feed_env_def)

lemma html_down:
  "\<not> prefix ''http://flibusta.is/opds/'' url \<Longrightarrow>
   http_request (feed_env xml root) tr url = (Inr None, tr @ [HTTP_request url])"
  by (simp add: http_request_def get_text_def feed_get_def raise_for_status_def)

lemma feed_up:
  "prefix ''http://flibusta.is/opds/'' url \<Longrightarrow>
   opds_request (feed_env xml root) tr url = (Inr (Some xml), tr @ [OPDS_request url])"
  by (simp add: opds_request_def get_text_def feed_get_def raise_for_status_def)

lemma http_search_books_down:
  "http_search_books (feed_env xml root) tr query page =
     (Inr None, tr @ [HTTP_request (''http://flibusta.is/booksearch?ask='' @ quote query @ ''&page='' @ str_int page)])"
  by (simp add: http_search_books_def FLIBUSTA_BASE_URL_def html_down)

lemma http_search_authors_down:
  "http_search_authors (feed_env xml root) tr query =
     (Inr None, tr @ [HTTP_request (''http://flibusta.is/booksearch?ask='' @ quote query)])"
  by (simp add: http_search_authors_def FLIBUSTA_BASE_URL_def html_down)

lemma http_get_author_books_down:
  "http_get_author_books (feed_env xml root) tr aid =
     (Inr None, tr @ [HTTP_request (''http://flibusta.is/a/'' @ aid @ ''/alphabet''),
                      HTTP_request (''http://flibusta.is/a/'' @ aid)])"
  by (simp add: http_get_author_books_def FLIBUSTA_BASE_URL_def html_down)

lemmas feed_parse_defs =
  feed_books_def feed_elem_def entry_elem_def link_elem_def
  findall_def find_elem_def opds_parse_book_def opds_parse_download_links_def
  acquisition_link_def attr_get_def atom_def dc_def List.map_filter_def file_format_def
  format_map_def ascii_search1_def ascii_digit_def FLIBUSTA_BASE_URL_def

lemma two_books_feed_books: "feed_books (feed_env xml root) two_books_feed =
   [mk_book ''2'' (Some ''Mango'') [] None None
          [\<lparr>link_url = ''http://flibusta.is/b/2/fb2'', link_format = ''fb2'',
            mime_type = ''application/fb2+zip''\<rparr>],
    mk_book ''1'' (Some ''apple'') [] None None
          [\<lparr>link_url = ''http://flibusta.is/b/1/epub'', link_format = ''epub'',
            mime_type = ''application/epub+zip''\<rparr>]]"
  by (simp add: feed_books_def two_books_feed_def feed_elem_def entry_elem_def link_elem_def
      findall_def find_elem_def opds_parse_book_def opds_parse_download_links_def
      acquisition_link_def attr_get_def atom_def dc_def List.map_filter_def file_format_def
      format_map_def ascii_search1_def ascii_digit_def FLIBUSTA_BASE_URL_def)

lemma feed_key_apple: "title_key (feed_env xml root) (mk_book i (Some ''apple'') as l d ls) = ''apple''"
  by (simp add: title_key_def lower_apple)

lemma feed_key_mango: "title_key (feed_env xml root) (mk_book i (Some ''Mango'') as l d ls) = ''mango''"
  by (simp add: title_key_def lower_mango)

lemma opds_search_url:
  "OPDS_BASE_URL @ ''/opensearch?searchTerm='' @ quote ''war''
      @ ''&searchType=books&pageNumber='' @ str_int 0
   = ''http://flibusta.is/opds/opensearch?searchTerm=war&searchType=books&pageNumber=0''"
  by (simp add: OPDS_BASE_URL_def FLIBUSTA_BASE_URL_def quote_war str_int_0)

lemma two_books_search_eval:
  "opds_search_books two_books_env tr ''war'' 0 =
     (Inr (Some feed_result),
      tr @ [OPDS_request ''http://flibusta.is/opds/opensearch?searchTerm=war&searchType=books&pageNumber=0''])"
proof -
  have u: "OPDS_BASE_URL @ ''/opensearch?searchTerm='' @ quote ''war''
                  @ ''&searchType=books&pageNumber='' @ str_int 0
      = ''http://flibusta.is/opds/opensearch?searchTerm=war&searchType=books&pageNumber=0''"
    by (simp add: OPDS_BASE_URL_def FLIBUSTA_BASE_URL_def quote_war str_int_0)
  have ne: "two_books_xml \<noteq> []" by (simp add: two_books_xml_def)
  have nx: "findall two_books_feed (atom ''link'') = []"
    by (simp add: findall_def two_books_feed_def feed_elem_def entry_elem_def atom_def)
  show ?thesis
    unfolding opds_search_books_def u two_books_env_def
    by (simp add: feed_up ne two_books_feed_books nx sort_by_title_def feed_key_apple feed_key_mango feed_result_def)
qed

lemma two_books_target: "find_target_url (feed_env xml root) two_books_feed = None"
proof -
  have "\<not> contains ALPHABET_LABEL (ascii_lower ''Mango'')" "\<not> contains ALPHABET_LABEL (ascii_lower ''apple'')"
    unfolding lower_mango lower_apple by code_simp+
  moreover have "\<not> contains ''alphabet'' ''/b/2/fb2''" "\<not> contains ''alphabet'' ''/b/1/epub''"
    by code_simp+
  ultimately show ?thesis
    by (simp add: find_target_url_def entry_target_def two_books_feed_def feed_elem_def
        entry_elem_def link_elem_def findall_def find_elem_def attr_get_def atom_def)
qed

lemma two_books_author_eval:
  "opds_get_author_books two_books_env tr ''7'' =
     (Inr (Some feed_result), tr @ [OPDS_request ''http://flibusta.is/opds/author/7''])"
proof -
  have u: "OPDS_BASE_URL @ ''/author/'' @ ''7'' = ''http://flibusta.is/opds/author/7''"
    by (simp add: OPDS_BASE_URL_def FLIBUSTA_BASE_URL_def)
  have ne: "two_books_xml \<noteq> []" by (simp add: two_books_xml_def)
  show ?thesis
    unfolding opds_get_author_books_def u two_books_env_def
    by (simp add: feed_up ne two_books_target author_feed_result_def two_books_feed_books sort_by_title_def
        feed_key_apple feed_key_mango feed_result_def)
qed

lemma two_books_authors_eval:
  "opds_search_authors two_books_env tr ''war'' 0 =
     (Inr (Some feed_authors_result),
      tr @ [OPDS_request ''http://flibusta.is/opds/opensearch?searchTerm=war&searchType=authors&pageNumber=0''])"
proof -
  have u: "OPDS_BASE_URL @ ''/opensearch?searchTerm='' @ quote ''war''
      @ ''&searchType=authors&pageNumber='' @ str_int 0
     = ''http://flibusta.is/opds/opensearch?searchTerm=war&searchType=authors&pageNumber=0''"
    by (simp add: OPDS_BASE_URL_def FLIBUSTA_BASE_URL_def quote_war str_int_0)
  have ne: "two_books_xml \<noteq> []" by (simp add: two_books_xml_def)
  have as: "List.map_filter (opds_entry_author (feed_env two_books_xml two_books_feed))
              (findall two_books_feed (atom ''entry'')) =
            [mk_author [] (Some ''Mango'') (Some ''/a/''), mk_author [] (Some ''apple'') (Some ''/a/'')]"
    by (simp add: opds_entry_author_def two_books_feed_def feed_elem_def entry_elem_def
        link_elem_def findall_def find_elem_def attr_get_def atom_def List.map_filter_def
        ascii_search1_def ascii_digit_def)
  show ?thesis
    unfolding opds_search_authors_def u two_books_env_def
    by (simp add: feed_up ne as sort_by_name_def name_key_def lower_mango lower_apple
        feed_authors_result_def)
qed

lemma two_books_html_down:
  "http_search_books two_books_env [] ''war'' 0
     = (Inr None, [HTTP_request ''http://flibusta.is/booksearch?ask=war&page=0''])"
  "http_search_authors two_books_env [] ''war''
     = (Inr None, [HTTP_request ''http://flibusta.is/booksearch?ask=war''])"
  "http_get_author_books two_books_env [] ''7''
     = (Inr None, [HTTP_request ''http://flibusta.is/a/7/alphabet'',
                   HTTP_request ''http://flibusta.is/a/7''])"
  by (simp_all add: two_books_env_def http_search_books_down http_search_authors_down
      http_get_author_books_down quote_war str_int_0)

lemma twice_feed_books:
  "feed_books (feed_env xml root) twice_feed =
   [mk_book ''1'' (Some ''War'') [] None None
          [\<lparr>link_url = ''http://flibusta.is/b/1/fb2'', link_format = ''fb2'',
            mime_type = ''application/fb2+zip''\<rparr>],
    mk_book ''1'' (Some ''War (copy)'') [] None None
          [\<lparr>link_url = ''http://flibusta.is/b/1/epub'', link_format = ''epub'',
            mime_type = ''application/epub+zip''\<rparr>]]"
  by (simp add: twice_feed_def feed_parse_defs)

lemma untitled_feed_books:
  "feed_books (feed_env xml root) untitled_feed =
   [mk_book ''1'' None [] None None
          [\<lparr>link_url = ''http://flibusta.is/b/1/fb2'', link_format = ''fb2'',
            mime_type = ''application/fb2+zip''\<rparr>]]"
  by (simp add: untitled_feed_def feed_parse_defs)

lemma lower_war: "ascii_lower ''War'' = ''war''" by code_simp

lemma lower_war_copy: "ascii_lower ''War (copy)'' = ''war (copy)''" by code_simp

lemma twice_search_eval:
  "opds_search_books twice_env [] ''war'' 0 =
     (Inr (Some (mk_result (feed_books twice_env twice_feed) False ''opds'')),
      [OPDS_request ''http://flibusta.is/opds/opensearch?searchTerm=war&searchType=books&pageNumber=0''])"
proof -
  have ne: "twice_xml \<noteq> []" by (simp add: twice_xml_def)
  have nx: "findall twice_feed (atom ''link'') = []"
    by (simp add: findall_def twice_feed_def feed_elem_def entry_elem_def atom_def)
  show ?thesis
    unfolding opds_search_books_def opds_search_url twice_env_def
    by (simp add: feed_up ne twice_feed_books nx sort_by_title_def title_key_def lower_war lower_war_copy)
qed

lemma untitled_search_eval:
  "opds_search_books untitled_env tr ''war'' 0 =
     (Inl AttributeError,
      tr @ [OPDS_request ''http://flibusta.is/opds/opensearch?searchTerm=war&searchType=books&pageNumber=0''])"
proof -
  have ne: "untitled_xml \<noteq> []" by (simp add: untitled_xml_def)
  show ?thesis
    unfolding opds_search_books_def opds_search_url untitled_env_def
    by (simp add: feed_up ne untitled_feed_books sort_by_title_def)
qed

lemma untitled_target: "find_target_url (feed_env xml root) untitled_feed = None"
proof -
  have "\<not> contains ALPHABET_LABEL []" by (simp add: ALPHABET_LABEL_def)
  moreover have "\<not> contains ''alphabet'' ''/b/1/fb2''" by code_simp
  ultimately show ?thesis
    by (simp add: find_target_url_def entry_target_def untitled_feed_def feed_elem_def
        entry_elem_def link_elem_def findall_def find_elem_def attr_get_def atom_def)
qed

lemma untitled_author_eval:
  "opds_get_author_books untitled_env tr ''7'' =
     (Inl AttributeError, tr @ [OPDS_request ''http://flibusta.is/opds/author/7''])"
proof -
  have u: "OPDS_BASE_URL @ ''/author/'' @ ''7'' = ''http://flibusta.is/opds/author/7''"
    by (simp add: OPDS_BASE_URL_def FLIBUSTA_BASE_URL_def)
  have ne: "untitled_xml \<noteq> []" by (simp add: untitled_xml_def)
  show ?thesis
    unfolding opds_get_author_books_def u untitled_env_def
    by (simp add: feed_up ne untitled_target author_feed_result_def untitled_feed_books
        sort_by_title_def)
qed

lemma empty_search_eval:
  "opds_search_books empty_env tr ''war'' 0 =
     (Inr (Some (mk_result [] False ''opds'')),
      tr @ [OPDS_request ''http://flibusta.is/opds/opensearch?searchTerm=war&searchType=books&pageNumber=0''])"
proof -
  have ne: "empty_xml \<noteq> []" by (simp add: empty_xml_def)
  show ?thesis
    unfolding opds_search_books_def opds_search_url empty_env_def
    by (simp add: feed_up ne feed_books_def feed_elem_def findall_def sort_by_title_def)
qed

section \<open>The claims of the specification\<close>

subsection \<open>C1: a productive HTML result is returned without fallback\<close>

text \<open>
  Claim C1. Whenever the HTML adapter returns a result with at least one item, each of
  \<open>search_books\<close>, \<open>search_authors\<close> and \<open>get_author_books\<close> returns that very
  result and the trace the HTML adapter left; its source is \<open>http\<close>; and everything the
  operation added to the trace is a request of the HTML adapter, so there was no feed
  request and no call of the status callback.
\<close>

theorem html_result_returned:
  "(http_search_books env tr query page = (Inr (Some r), tr') \<and> items r \<noteq> [] \<longrightarrow>
      search_books env tr query page cb = (Inr (Some r), tr') \<and> source r = ''http''
      \<and> (\<exists>urls. tr' = tr @ map HTTP_request urls))
   \<and> (http_search_authors env tr query = (Inr (Some ra), tra) \<and> items ra \<noteq> [] \<longrightarrow>
      search_authors env tr query page cb = (Inr (Some ra), tra) \<and> source ra = ''http''
      \<and> (\<exists>urls. tra = tr @ map HTTP_request urls))
   \<and> (http_get_author_books env tr aid = (Inr (Some rb), trb) \<and> items rb \<noteq> [] \<longrightarrow>
      get_author_books env tr aid page cb = (Inr (Some rb), trb) \<and> source rb = ''http''
      \<and> (\<exists>urls. trb = tr @ map HTTP_request urls))"
proof (intro conjI impI; elim conjE)
  assume h: "http_search_books env tr query page = (Inr (Some r), tr')" and ne: "items r \<noteq> []"
  show "search_books env tr query page cb = (Inr (Some r), tr')"
    using h ne by (simp add: search_books_def usable_def)
  show "source r = ''http''"
    using h by (rule http_search_books_source)
  obtain url where "snd (http_search_books env tr query page) = tr @ [HTTP_request url]"
    using http_search_books_trace by blast
  then have "tr' = tr @ map HTTP_request [url]" using h by simp
  then show "\<exists>urls. tr' = tr @ map HTTP_request urls" by blast
next
  assume h: "http_search_authors env tr query = (Inr (Some ra), tra)" and ne: "items ra \<noteq> []"
  show "search_authors env tr query page cb = (Inr (Some ra), tra)"
    using h ne by (simp add: search_authors_def usable_def)
  show "source ra = ''http''"
    using h by (rule http_search_authors_source)
  obtain url where "snd (http_search_authors env tr query) = tr @ [HTTP_request url]"
    using http_search_authors_trace by blast
  then have "tra = tr @ map HTTP_request [url]" using h by simp
  then show "\<exists>urls. tra = tr @ map HTTP_request urls" by blast
next
  assume h: "http_get_author_books env tr aid = (Inr (Some rb), trb)" and ne: "items rb \<noteq> []"
  show "get_author_books env tr aid page cb = (Inr (Some rb), trb)"
    using h ne by (simp add: get_author_books_def usable_def)
  show "source rb = ''http''"
    using h by (rule http_get_author_books_source)
  show "\<exists>urls. trb = tr @ map HTTP_request urls"
    using http_get_author_books_trace [of env tr aid] h by simp
qed

text \<open>The three operations on the catalog whose HTML source answers, with a callback
  that would raise if it were called.\<close>

theorem html_result_returned_witness:
  "http_search_books html_env [] ''war'' 0
     = (Inr (Some search_result), [HTTP_request ''http://flibusta.is/booksearch?ask=war&page=0''])
   \<and> items search_result \<noteq> []
   \<and> search_books html_env [] ''war'' 0 (Some failing_callback)
     = (Inr (Some search_result), [HTTP_request ''http://flibusta.is/booksearch?ask=war&page=0''])
   \<and> source search_result = ''http''
   \<and> http_search_authors html_env [] ''war''
     = (Inr (Some authors_result), [HTTP_request ''http://flibusta.is/booksearch?ask=war''])
   \<and> items authors_result \<noteq> []
   \<and> search_authors html_env [] ''war'' 0 (Some failing_callback)
     = (Inr (Some authors_result), [HTTP_request ''http://flibusta.is/booksearch?ask=war''])
   \<and> source authors_result = ''http''
   \<and> http_get_author_books html_env [] ''7''
     = (Inr (Some author_books_result), [HTTP_request ''http://flibusta.is/a/7/alphabet''])
   \<and> items author_books_result \<noteq> []
   \<and> get_author_books html_env [] ''7'' 0 (Some failing_callback)
     = (Inr (Some author_books_result), [HTTP_request ''http://flibusta.is/a/7/alphabet''])
   \<and> source author_books_result = ''http''"
proof -
  have ne: "items search_result \<noteq> []" "items authors_result \<noteq> []"
    "items author_books_result \<noteq> []"
    by (simp_all add: search_result_def authors_result_def author_books_result_def)
  show ?thesis
    using html_result_returned [where env = html_env and tr = "[]" and query = "''war''"
        and page = 0 and cb = "Some failing_callback" and aid = "''7''"
        and r = search_result
        and tr' = "[HTTP_request ''http://flibusta.is/booksearch?ask=war&page=0'']"
        and ra = authors_result
        and tra = "[HTTP_request ''http://flibusta.is/booksearch?ask=war'']"
        and rb = author_books_result
        and trb = "[HTTP_request ''http://flibusta.is/a/7/alphabet'']"]
      html_search_books_eval html_search_authors_eval html_author_books_eval ne
    by blast
qed

subsection \<open>C2: an unproductive HTML result hands over to the feed adapter\<close>

text \<open>
  Claim C2. Whenever the HTML adapter returns no result or a result without items, each
  public operation is the feed adapter run after the notification: it returns what the
  feed adapter returns, a feed request follows in the trace, and every result that comes
  back has the source \<open>opds\<close>, with or without items.
\<close>

theorem fallback_returns_feed_outcome:
  "(http_search_books env tr query page = (Inr result, tr1)
      \<and> (result = None \<or> (\<exists>r. result = Some r \<and> items r = [])) \<longrightarrow>
      search_books env tr query page cb = opds_search_books env (notify cb tr1) query page
      \<and> (\<exists>url rest. snd (search_books env tr query page cb)
                       = notify cb tr1 @ OPDS_request url # rest)
      \<and> (\<forall>r' tr2. search_books env tr query page cb = (Inr (Some r'), tr2)
                     \<longrightarrow> source r' = ''opds''))
   \<and> (http_search_authors env tr query = (Inr resulta, tra)
      \<and> (resulta = None \<or> (\<exists>r. resulta = Some r \<and> items r = [])) \<longrightarrow>
      search_authors env tr query page cb = opds_search_authors env (notify cb tra) query page
      \<and> (\<exists>url rest. snd (search_authors env tr query page cb)
                       = notify cb tra @ OPDS_request url # rest)
      \<and> (\<forall>r' tr2. search_authors env tr query page cb = (Inr (Some r'), tr2)
                     \<longrightarrow> source r' = ''opds''))
   \<and> (http_get_author_books env tr aid = (Inr resultb, trb)
      \<and> (resultb = None \<or> (\<exists>r. resultb = Some r \<and> items r = [])) \<longrightarrow>
      get_author_books env tr aid page cb = opds_get_author_books env (notify cb trb) aid
      \<and> (\<exists>url rest. snd (get_author_books env tr aid page cb)
                       = notify cb trb @ OPDS_request url # rest)
      \<and> (\<forall>r' tr2. get_author_books env tr aid page cb = (Inr (Some r'), tr2)
                     \<longrightarrow> source r' = ''opds''))"
proof (intro conjI impI; elim conjE)
  assume h: "http_search_books env tr query page = (Inr result, tr1)"
    and e: "result = None \<or> (\<exists>r. result = Some r \<and> items r = [])"
  have nu: "\<not> usable result" using e by (auto simp: usable_def)
  show eq: "search_books env tr query page cb = opds_search_books env (notify cb tr1) query page"
    using h nu by (simp add: search_books_def)
  show "\<exists>url rest. snd (search_books env tr query page cb) = notify cb tr1 @ OPDS_request url # rest"
    unfolding eq using opds_search_books_trace [of env "notify cb tr1" query page] by auto
  show "\<forall>r' tr2. search_books env tr query page cb = (Inr (Some r'), tr2) \<longrightarrow> source r' = ''opds''"
    unfolding eq by (auto dest: opds_search_books_source)
next
  assume h: "http_search_authors env tr query = (Inr resulta, tra)"
    and e: "resulta = None \<or> (\<exists>r. resulta = Some r \<and> items r = [])"
  have nu: "\<not> usable resulta" using e by (auto simp: usable_def)
  show eq: "search_authors env tr query page cb = opds_search_authors env (notify cb tra) query page"
    using h nu by (simp add: search_authors_def)
  show "\<exists>url rest. snd (search_authors env tr query page cb) = notify cb tra @ OPDS_request url # rest"
    unfolding eq using opds_search_authors_trace [of env "notify cb tra" query page] by auto
  show "\<forall>r' tr2. search_authors env tr query page cb = (Inr (Some r'), tr2) \<longrightarrow> source r' = ''opds''"
    unfolding eq by (auto dest: opds_search_authors_source)
next
  assume h: "http_get_author_books env tr aid = (Inr resultb, trb)"
    and e: "resultb = None \<or> (\<exists>r. resultb = Some r \<and> items r = [])"
  have nu: "\<not> usable resultb" using e by (auto simp: usable_def)
  show eq: "get_author_books env tr aid page cb = opds_get_author_books env (notify cb trb) aid"
    using h nu by (simp add: get_author_books_def)
  show "\<exists>url rest. snd (get_author_books env tr aid page cb) = notify cb trb @ OPDS_request url # rest"
    unfolding eq using opds_get_author_books_trace [of env "notify cb trb" aid] by auto
  show "\<forall>r' tr2. get_author_books env tr aid page cb = (Inr (Some r'), tr2) \<longrightarrow> source r' = ''opds''"
    unfolding eq by (auto dest: opds_get_author_books_source)
qed

text \<open>The three operations on the catalog whose HTML source answers 503 and whose
  feed lists two books, and the book search on the catalog whose feed has no entries.\<close>

theorem fallback_returns_feed_outcome_witness:
  "http_search_books two_books_env [] ''war'' 0
     = (Inr None, [HTTP_request ''http://flibusta.is/booksearch?ask=war&page=0''])
   \<and> search_books two_books_env [] ''war'' 0 None
     = (Inr (Some feed_result),
        [HTTP_request ''http://flibusta.is/booksearch?ask=war&page=0'',
         OPDS_request ''http://flibusta.is/opds/opensearch?searchTerm=war&searchType=books&pageNumber=0''])
   \<and> source feed_result = ''opds''
   \<and> http_search_authors two_books_env [] ''war''
     = (Inr None, [HTTP_request ''http://flibusta.is/booksearch?ask=war''])
   \<and> search_authors two_books_env [] ''war'' 0 None
     = (Inr (Some feed_authors_result),
        [HTTP_request ''http://flibusta.is/booksearch?ask=war'',
         OPDS_request ''http://flibusta.is/opds/opensearch?searchTerm=war&searchType=authors&pageNumber=0''])
   \<and> source feed_authors_result = ''opds''
   \<and> http_get_author_books two_books_env [] ''7''
     = (Inr None, [HTTP_request ''http://flibusta.is/a/7/alphabet'',
                   HTTP_request ''http://flibusta.is/a/7''])
   \<and> get_author_books two_books_env [] ''7'' 0 None
     = (Inr (Some feed_result),
        [HTTP_request ''http://flibusta.is/a/7/alphabet'', HTTP_request ''http://flibusta.is/a/7'',
         OPDS_request ''http://flibusta.is/opds/author/7''])
   \<and> http_search_books empty_env [] ''war'' 0
     = (Inr None, [HTTP_request ''http://flibusta.is/booksearch?ask=war&page=0''])
   \<and> search_books empty_env [] ''war'' 0 None
     = (Inr (Some (mk_result [] False ''opds'')),
        [HTTP_request ''http://flibusta.is/booksearch?ask=war&page=0'',
         OPDS_request ''http://flibusta.is/opds/opensearch?searchTerm=war&searchType=books&pageNumber=0''])"
proof -
  have n: "notify None tr = tr" for tr by (simp add: notify_def)
  have s: "source feed_result = ''opds''" "source feed_authors_result = ''opds''"
    by (simp_all add: feed_result_def feed_authors_result_def)
  have e: "http_search_books empty_env [] ''war'' 0
     = (Inr None, [HTTP_request ''http://flibusta.is/booksearch?ask=war&page=0''])"
    by (simp add: empty_env_def http_search_books_down quote_war str_int_0)
  have two: "search_books two_books_env [] ''war'' 0 None
     = (Inr (Some feed_result),
        [HTTP_request ''http://flibusta.is/booksearch?ask=war&page=0'',
         OPDS_request ''http://flibusta.is/opds/opensearch?searchTerm=war&searchType=books&pageNumber=0''])
   \<and> search_authors two_books_env [] ''war'' 0 None
     = (Inr (Some feed_authors_result),
        [HTTP_request ''http://flibusta.is/booksearch?ask=war'',
         OPDS_request ''http://flibusta.is/opds/opensearch?searchTerm=war&searchType=authors&pageNumber=0''])
   \<and> get_author_books two_books_env [] ''7'' 0 None
     = (Inr (Some feed_result),
        [HTTP_request ''http://flibusta.is/a/7/alphabet'', HTTP_request ''http://flibusta.is/a/7'',
         OPDS_request ''http://flibusta.is/opds/author/7''])"
    using fallback_returns_feed_outcome [where env = two_books_env and tr = "[]"
        and query = "''war''" and page = 0 and cb = None and aid = "''7''"
        and result = None
        and ?tr1.0 = "[HTTP_request ''http://flibusta.is/booksearch?ask=war&page=0'']"
        and resulta = None
        and tra = "[HTTP_request ''http://flibusta.is/booksearch?ask=war'']"
        and resultb = None
        and trb = "[HTTP_request ''http://flibusta.is/a/7/alphabet'',
                    HTTP_request ''http://flibusta.is/a/7'']"]
      two_books_html_down
    by (simp add: n two_books_search_eval two_books_authors_eval two_books_author_eval)
  have empty: "search_books empty_env [] ''war'' 0 None
     = (Inr (Some (mk_result [] False ''opds'')),
        [HTTP_request ''http://flibusta.is/booksearch?ask=war&page=0'',
         OPDS_request ''http://flibusta.is/opds/opensearch?searchTerm=war&searchType=books&pageNumber=0''])"
    using fallback_returns_feed_outcome [where env = empty_env and tr = "[]"
        and query = "''war''" and page = 0 and cb = None
        and result = None
        and ?tr1.0 = "[HTTP_request ''http://flibusta.is/booksearch?ask=war&page=0'']",
        THEN conjunct1] e
    by (simp add: n empty_search_eval)
  show ?thesis
    using two empty e s two_books_html_down by simp
qed

subsection \<open>C3: exceptions that leave the feed adapter\<close>

text \<open>
  Claim C3 says that no adapter operation lets an exception reach its caller. The feed
  adapter catches \<open>ET.ParseError\<close> only. For a feed with an entry whose title element is
  empty, the title of the book is \<open>None\<close>, the sort key raises \<open>AttributeError\<close>, and
  the exception leaves \<open>_opds_search_books\<close> and \<open>_opds_get_author_books\<close>, and
  then \<open>search_books\<close> and \<open>get_author_books\<close>.
\<close>

theorem untitled_entry_raises:
  "fst (opds_search_books untitled_env [] ''war'' 0) = Inl AttributeError
   \<and> fst (search_books untitled_env [] ''war'' 0 None) = Inl AttributeError
   \<and> fst (opds_get_author_books untitled_env [] ''7'') = Inl AttributeError
   \<and> fst (get_author_books untitled_env [] ''7'' 0 None) = Inl AttributeError"
proof -
  have "http_search_books untitled_env [] ''war'' 0
     = (Inr None, [HTTP_request ''http://flibusta.is/booksearch?ask=war&page=0''])"
    by (simp add: untitled_env_def http_search_books_down quote_war str_int_0)
  moreover have "http_get_author_books untitled_env [] ''7''
     = (Inr None, [HTTP_request ''http://flibusta.is/a/7/alphabet'',
                   HTTP_request ''http://flibusta.is/a/7''])"
    by (simp add: untitled_env_def http_get_author_books_down)
  ultimately show ?thesis
    by (simp add: search_books_def get_author_books_def usable_def notify_def
        untitled_search_eval untitled_author_eval)
qed

subsection \<open>C4: the file name of a download\<close>

text \<open>The claim as it is written fails. Without a header, the last segment \<open>epub\<close> of
  the URL has no dot, and the file name is the placeholder \<open>book\<close>. What is taken from the
  header is the group of the first match of the pattern, not the value of the filename
  attribute: \<^verbatim>\<open>filename="it's.fb2"\<close> gives \<open>it\<close>, and
  \<^verbatim>\<open>attachment; filename*=UTF-8''x.fb2; filename="y.fb2"\<close> gives \<open>UTF-8\<close>. A value that
  is blank is not returned: \<^verbatim>\<open>filename=" "\<close> with the URL
  \<open>http://flibusta.is/files/book.one.fb2\<close> gives \<open>book.one.fb2\<close>. What is taken from the URL
  is the text after its last \<open>/\<close>, not the last segment of its path:
  \<open>http://flibusta.is/b/123/fb2?f=a/b.c\<close> gives \<open>b.c\<close>.\<close>

theorem url_without_dot_gives_placeholder:
  "map_sum id (map_option snd) (fst (download_book (file_env None) [] ''http://flibusta.is/b/123/epub''))
     = Inr (Some ''book'')
   \<and> ''book'' \<noteq> ''epub''
   \<and> map_sum id (map_option snd)
       (fst (download_book (file_env (Some apostrophe_header)) [] ''http://flibusta.is/b/123/fb2''))
     = Inr (Some ''it'')
   \<and> map_sum id (map_option snd)
       (fst (download_book (file_env (Some extended_header)) [] ''http://flibusta.is/b/123/fb2''))
     = Inr (Some ''UTF-8'')
   \<and> map_sum id (map_option snd)
       (fst (download_book (file_env (Some ''filename=\" \"'')) []
              ''http://flibusta.is/files/book.one.fb2''))
     = Inr (Some ''book.one.fb2'')
   \<and> map_sum id (map_option snd)
       (fst (download_book (file_env None) [] ''http://flibusta.is/b/123/fb2?f=a/b.c''))
     = Inr (Some ''b.c'')"
  by (simp add: download_book_def file_env_def raise_for_status_def derive_filename_url_example
        derive_filename_apostrophe derive_filename_extended derive_filename_blank
        derive_filename_query)

text \<open>
  Claim C4, amended. For a response with a 2xx status, \<open>download_book\<close> returns the
  content and a file name \<open>fn\<close>. (a) If the \<open>Content-Disposition\<close> header contains
  \<open>filename=\<close>, and the first match in it of the pattern
  \<^verbatim>\<open>filename[*]?=["']?([^"';]+)\<close> has a group \<open>v\<close> that is not empty once stripped of
  white space, \<open>fn\<close> is the stripped \<open>v\<close>, percent-decoded when it contains \<open>%\<close>.
  Otherwise, that is, when there is no header or every such \<open>v\<close> is blank, with \<open>seg\<close>
  the text after the last \<open>/\<close> of the URL, \<open>fn\<close> is (b) \<open>seg\<close> if \<open>seg\<close> contains a
  dot, and (c) \<open>book\<close> if it does not. The header \<^verbatim>\<open>filename="book%20one.fb2"\<close> gives
  \<open>book one.fb2\<close>; no header and the URL \<open>http://flibusta.is/b/123/epub\<close> give \<open>book\<close>.
\<close>

theorem download_filename:
  assumes "client_get env tr url = Inr resp"
    and "200 \<le> status_code resp" and "status_code resp < 300"
  shows "\<exists>fn. download_book env tr url
                 = (Inr (Some (resp_content resp, fn)), tr @ [Download_request url])
     \<and> (\<forall>cd v. headers resp ''Content-Disposition'' = Some cd \<and> sublist ''filename='' cd
            \<and> leftmost_match cd v \<and> strip v \<noteq> [] \<longrightarrow>
          fn = (if CHR ''%'' \<in> set (strip v) then unquote (strip v) else strip v))
     \<and> (\<forall>seg. (\<forall>cd v. headers resp ''Content-Disposition'' = Some cd
                   \<and> sublist ''filename='' cd \<and> leftmost_match cd v \<longrightarrow> strip v = [])
            \<and> after_last_slash url seg \<longrightarrow>
          fn = (if CHR ''.'' \<in> set seg then seg else ''book''))
     \<and> (headers resp ''Content-Disposition'' = Some ''filename=\"book%20one.fb2\"'' \<longrightarrow>
          fn = ''book one.fb2'')
     \<and> (headers resp ''Content-Disposition'' = None \<and> url = ''http://flibusta.is/b/123/epub'' \<longrightarrow>
          fn = ''book'')"
proof -
  let ?cd = "case headers resp ''Content-Disposition'' of None \<Rightarrow> [] | Some v \<Rightarrow> v"
  let ?fn = "derive_filename ?cd url"
  have dl: "download_book env tr url
              = (Inr (Some (resp_content resp, ?fn)), tr @ [Download_request url])"
    using assms by (simp add: download_book_def raise_for_status_def Let_def)
  have a: "\<forall>cd v. headers resp ''Content-Disposition'' = Some cd \<and> sublist ''filename='' cd
            \<and> leftmost_match cd v \<and> strip v \<noteq> [] \<longrightarrow>
          ?fn = (if CHR ''%'' \<in> set (strip v) then unquote (strip v) else strip v)"
  proof (intro allI impI)
    fix cd v
    assume h: "headers resp ''Content-Disposition'' = Some cd \<and> sublist ''filename='' cd
            \<and> leftmost_match cd v \<and> strip v \<noteq> []"
    then have "derive_filename cd url
                 = (if CHR ''%'' \<in> set (strip v) then unquote (strip v) else strip v)"
      by (intro derive_filename_header) simp_all
    with h show "?fn = (if CHR ''%'' \<in> set (strip v) then unquote (strip v) else strip v)"
      by simp
  qed
  have b: "\<forall>seg. (\<forall>cd v. headers resp ''Content-Disposition'' = Some cd
                   \<and> sublist ''filename='' cd \<and> leftmost_match cd v \<longrightarrow> strip v = [])
            \<and> after_last_slash url seg \<longrightarrow>
          ?fn = (if CHR ''.'' \<in> set seg then seg else ''book'')"
  proof (intro allI impI)
    fix seg
    assume h: "(\<forall>cd v. headers resp ''Content-Disposition'' = Some cd
                   \<and> sublist ''filename='' cd \<and> leftmost_match cd v \<longrightarrow> strip v = [])
            \<and> after_last_slash url seg"
    have "\<forall>v. sublist ''filename='' ?cd \<and> leftmost_match ?cd v \<longrightarrow> strip v = []"
    proof (cases "headers resp ''Content-Disposition''")
      case None
      then show ?thesis by simp
    next
      case (Some cd)
      with h show ?thesis by simp
    qed
    with h show "?fn = (if CHR ''.'' \<in> set seg then seg else ''book'')"
      by (intro derive_filename_url) simp_all
  qed
  have c: "headers resp ''Content-Disposition'' = Some ''filename=\"book%20one.fb2\"'' \<longrightarrow>
          ?fn = ''book one.fb2''"
    by (auto simp: derive_filename_header_example)
  have d: "headers resp ''Content-Disposition'' = None \<and> url = ''http://flibusta.is/b/123/epub'' \<longrightarrow>
          ?fn = ''book''"
    by (auto simp: derive_filename_url_example)
  from dl a b c d show ?thesis
    by (intro exI [of _ ?fn] conjI)
qed

text \<open>A download with the header of the claim, one with a header whose value is blank and
  a URL whose last part has a dot, and one without a header and with a URL whose last part
  has no dot.\<close>

theorem download_filename_witness:
  "fst (download_book (file_env (Some ''filename=\"book%20one.fb2\"'')) []
          ''http://flibusta.is/b/123/fb2'')
     = Inr (Some (''FictionBook'', ''book one.fb2''))
   \<and> fst (download_book (file_env (Some ''filename=\" \"'')) []
          ''http://flibusta.is/files/book.one.fb2'')
     = Inr (Some (''FictionBook'', ''book.one.fb2''))
   \<and> fst (download_book (file_env None) [] ''http://flibusta.is/b/123/mobi'')
     = Inr (Some (''FictionBook'', ''book''))"
proof -
  let ?resp = "\<lambda>cd. \<lparr>status_code = 200, resp_text = [],
                      headers = (\<lambda>k. if k = ''Content-Disposition'' then cd else None),
                      resp_content = ''FictionBook''\<rparr>"
  have g: "client_get (file_env cd) [] url = Inr (?resp cd)" for cd url
    by (simp add: file_env_def)
  have lo: "200 \<le> status_code (?resp cd)" and hi: "status_code (?resp cd) < 300" for cd
    by simp_all
  have h: "headers (?resp cd) ''Content-Disposition'' = cd" for cd
    by simp
  let ?cd1 = "''filename=\"book%20one.fb2\"''"
  from download_filename [OF g lo hi, of "Some ?cd1" "''http://flibusta.is/b/123/fb2''"]
  obtain fn1 where
    d1: "download_book (file_env (Some ?cd1)) [] ''http://flibusta.is/b/123/fb2''
           = (Inr (Some (resp_content (?resp (Some ?cd1)), fn1)),
              [] @ [Download_request ''http://flibusta.is/b/123/fb2''])"
    and a1: "\<forall>cd v. headers (?resp (Some ?cd1)) ''Content-Disposition'' = Some cd
            \<and> sublist ''filename='' cd \<and> leftmost_match cd v \<and> strip v \<noteq> [] \<longrightarrow>
          fn1 = (if CHR ''%'' \<in> set (strip v) then unquote (strip v) else strip v)"
    by blast
  have "sublist ''filename='' ?cd1"
    using contains_example by (simp only: contains_iff_sublist)
  moreover have "leftmost_match ?cd1 ''book%20one.fb2''"
    using search_example by (simp only: search_filename_iff)
  moreover have "strip ''book%20one.fb2'' \<noteq> []" and "CHR ''%'' \<in> set (strip ''book%20one.fb2'')"
    by (simp_all add: strip_example)
  ultimately have "fn1 = unquote (strip ''book%20one.fb2'')"
    using a1 [rule_format, of ?cd1 "''book%20one.fb2''"] h [of "Some ?cd1"] by simp
  then have f1: "fn1 = ''book one.fb2''"
    by (simp add: strip_example unquote_example)
  let ?cd2 = "''filename=\" \"''"
  let ?url2 = "''http://flibusta.is/files/book.one.fb2''"
  from download_filename [OF g lo hi, of "Some ?cd2" ?url2]
  obtain fn2 where
    d2: "download_book (file_env (Some ?cd2)) [] ?url2
           = (Inr (Some (resp_content (?resp (Some ?cd2)), fn2)), [] @ [Download_request ?url2])"
    and b2: "\<forall>seg. (\<forall>cd v. headers (?resp (Some ?cd2)) ''Content-Disposition'' = Some cd
                   \<and> sublist ''filename='' cd \<and> leftmost_match cd v \<longrightarrow> strip v = [])
            \<and> after_last_slash ?url2 seg \<longrightarrow>
          fn2 = (if CHR ''.'' \<in> set seg then seg else ''book'')"
    by blast
  have "\<forall>cd v. headers (?resp (Some ?cd2)) ''Content-Disposition'' = Some cd
                   \<and> sublist ''filename='' cd \<and> leftmost_match cd v \<longrightarrow> strip v = []"
    using search_blank strip_blank by (auto simp: search_filename_iff [symmetric])
  moreover have "after_last_slash ?url2 ''book.one.fb2''"
    unfolding after_last_slash_def
    by (intro conjI disjI2 exI [of _ "''http://flibusta.is/files''"]) simp_all
  ultimately have f2: "fn2 = ''book.one.fb2''"
    using b2 [rule_format, of "''book.one.fb2''"] by simp
  let ?url3 = "''http://flibusta.is/b/123/mobi''"
  from download_filename [OF g lo hi, of None ?url3]
  obtain fn3 where
    d3: "download_book (file_env None) [] ?url3
           = (Inr (Some (resp_content (?resp None), fn3)), [] @ [Download_request ?url3])"
    and b3: "\<forall>seg. (\<forall>cd v. headers (?resp None) ''Content-Disposition'' = Some cd
                   \<and> sublist ''filename='' cd \<and> leftmost_match cd v \<longrightarrow> strip v = [])
            \<and> after_last_slash ?url3 seg \<longrightarrow>
          fn3 = (if CHR ''.'' \<in> set seg then seg else ''book'')"
    by blast
  have "after_last_slash ?url3 ''mobi''"
    unfolding after_last_slash_def
    by (intro conjI disjI2 exI [of _ "''http://flibusta.is/b/123''"]) simp_all
  then have f3: "fn3 = ''book''"
    using b3 [rule_format, of "''mobi''"] by simp
  show ?thesis
    using d1 f1 d2 f2 d3 f3 by simp
qed

subsection \<open>C5: the format of an acquisition link\<close>

text \<open>The claim as it is written fails: the type \<open>application/x-custom\<close> is not in the
  table, and its format is the whole subtype \<open>x-custom\<close>.\<close>

theorem custom_type_keeps_prefix:
  "map_option link_format
     (acquisition_link two_books_env (link_elem ''/b/9/download'' ''application/x-custom''))
     = Some ''x-custom''
   \<and> ''x-custom'' \<noteq> ''custom''"
  by (simp add: acquisition_link_def link_elem_def attr_get_def file_format_def format_map_def)

text \<open>
  Claim C5, amended. A feed link whose relation contains \<open>acquisition\<close> and whose type
  does not contain \<open>text/html\<close> gives a download link with that type, whose format is the
  entry of the table for the type, and for a type that the table does not have the text
  after the last \<open>/\<close> of the type. So \<open>application/fb2+zip\<close> gives \<open>fb2\<close> and
  \<open>application/x-custom\<close> gives \<open>x-custom\<close>.
\<close>

theorem acquisition_link_format:
  assumes "contains ''acquisition'' (attr_get link ''rel'' [])"
    and "\<not> contains ''text/html'' (attr_get link ''type'' [])"
  shows "\<exists>dl. acquisition_link env link = Some dl
           \<and> mime_type dl = attr_get link ''type'' []
           \<and> (\<forall>f. (mime_type dl, f) \<in> set format_map \<longrightarrow> link_format dl = f)
           \<and> (mime_type dl \<notin> fst ` set format_map \<longrightarrow>
                link_format dl = rev (takeWhile (\<lambda>c. c \<noteq> CHR ''/'') (rev (mime_type dl))))
           \<and> (mime_type dl = ''application/fb2+zip'' \<longrightarrow> link_format dl = ''fb2'')
           \<and> (mime_type dl = ''application/x-custom'' \<longrightarrow> link_format dl = ''x-custom'')"
proof -
  let ?mime = "attr_get link ''type'' []"
  let ?dl = "\<lparr>link_url = (if prefix ''/'' (attr_get link ''href'' [])
                           then urljoin env FLIBUSTA_BASE_URL (attr_get link ''href'' [])
                           else attr_get link ''href'' []),
              link_format = file_format ?mime, mime_type = ?mime\<rparr>"
  have a: "acquisition_link env link = Some ?dl"
    using assms by (simp add: acquisition_link_def Let_def)
  have b: "\<forall>f. (?mime, f) \<in> set format_map \<longrightarrow> file_format ?mime = f"
    by (auto simp: file_format_def dest: format_map_lookup)
  have c: "?mime \<notin> fst ` set format_map \<longrightarrow>
             file_format ?mime = rev (takeWhile (\<lambda>c. c \<noteq> CHR ''/'') (rev ?mime))"
    by (auto simp: file_format_def last_split_on dest: format_map_miss)
  have d: "file_format ''application/fb2+zip'' = ''fb2''"
    by (simp add: file_format_def format_map_def)
  have e: "file_format ''application/x-custom'' = ''x-custom''"
    by (simp add: file_format_def format_map_def)
  show ?thesis
    using a b c d e by simp
qed

text \<open>Links of a type in the table, of a type outside it, and of the type of the
  claim.\<close>

theorem acquisition_link_format_witness:
  "contains ''acquisition'' (attr_get (link_elem ''/b/2/fb2'' ''application/fb2+zip'') ''rel'' [])
   \<and> \<not> contains ''text/html'' (attr_get (link_elem ''/b/2/fb2'' ''application/fb2+zip'') ''type'' [])
   \<and> map_option link_format
        (acquisition_link two_books_env (link_elem ''/b/2/fb2'' ''application/fb2+zip''))
      = Some ''fb2''
   \<and> map_option link_format
        (acquisition_link two_books_env (link_elem ''/b/2/cover'' ''image/jpeg''))
      = Some ''jpeg''
   \<and> map_option link_format
        (acquisition_link two_books_env (link_elem ''/b/2/download'' ''application/x-custom''))
      = Some ''x-custom''"
proof -
  let ?l1 = "link_elem ''/b/2/fb2'' ''application/fb2+zip''"
  let ?l2 = "link_elem ''/b/2/cover'' ''image/jpeg''"
  let ?l3 = "link_elem ''/b/2/download'' ''application/x-custom''"
  have a: "contains ''acquisition'' (attr_get (link_elem href mime) ''rel'' [])" for href mime
    by (simp add: link_elem_def attr_get_def)
  have t: "attr_get (link_elem href mime) ''type'' [] = mime" for href mime
    by (simp add: link_elem_def attr_get_def)
  have n: "\<not> contains ''text/html'' (attr_get ?l1 ''type'' [])"
    "\<not> contains ''text/html'' (attr_get ?l2 ''type'' [])"
    "\<not> contains ''text/html'' (attr_get ?l3 ''type'' [])"
    unfolding t by simp_all
  have m: "''image/jpeg'' \<notin> fst ` set format_map" by (simp add: format_map_def)
  have j: "rev (takeWhile (\<lambda>c. c \<noteq> CHR ''/'') (rev ''image/jpeg'')) = ''jpeg''" by simp
  from acquisition_link_format [OF a n(1), of two_books_env]
  obtain d1 where d1: "acquisition_link two_books_env ?l1 = Some d1" "link_format d1 = ''fb2''"
    unfolding t by blast
  from acquisition_link_format [OF a n(2), of two_books_env]
  obtain d2 where d2: "acquisition_link two_books_env ?l2 = Some d2" "link_format d2 = ''jpeg''"
    unfolding t using m j by force
  from acquisition_link_format [OF a n(3), of two_books_env]
  obtain d3 where d3: "acquisition_link two_books_env ?l3 = Some d3" "link_format d3 = ''x-custom''"
    unfolding t by blast
  show ?thesis
    using a [of "''/b/2/fb2''" "''application/fb2+zip''"] n(1) d1 d2 d3 by simp
qed

subsection \<open>C6: book ids within one result\<close>

text \<open>The claim as it is written fails for the feed adapter, which removes no
  duplicates: a feed that lists the book 1 twice gives a result with the id 1 twice.\<close>

theorem feed_ids_repeat:
  "map_sum id (map_option (map book_id \<circ> items)) (fst (opds_search_books twice_env [] ''war'' 0))
     = Inr (Some [''1'', ''1''])
   \<and> \<not> distinct [''1'', ''1'']"
proof -
  have "feed_books twice_env twice_feed = feed_books (feed_env twice_xml twice_feed) twice_feed"
    by (simp add: twice_env_def)
  then show ?thesis
    by (simp add: twice_search_eval twice_feed_books)
qed

text \<open>
  Claim C6, amended. In every result of \<open>_http_search_books\<close> and of
  \<open>_http_get_author_books\<close>, the book ids of the items are pairwise distinct.
\<close>

theorem html_book_ids_distinct:
  "(http_search_books env tr query page = (Inr (Some r), tr') \<longrightarrow>
      distinct (map book_id (items r)))
   \<and> (http_get_author_books env tr aid = (Inr (Some rb), trb) \<longrightarrow>
      distinct (map book_id (items rb)))"
proof (intro conjI impI)
  assume "http_search_books env tr query page = (Inr (Some r), tr')"
  then obtain bs0 where "sort_by_title env (unique_books {} bs0) = Inr (items r)"
    by (auto simp: http_search_books_def Let_def mk_result_def
        split: prod.splits sum.splits option.splits if_splits)
  then have "items r = sort_key (title_key env) (unique_books {} bs0)"
    using sort_by_title_Inr by blast
  then show "distinct (map book_id (items r))"
    using distinct_unique_books [of "{}" bs0] by (simp add: distinct_map_sort_key)
next
  assume "http_get_author_books env tr aid = (Inr (Some rb), trb)"
  then obtain html where "parse_author_page env aid html = Some rb"
    by (auto simp: http_get_author_books_def
        split: prod.splits sum.splits option.splits if_splits list.splits)
  then obtain ms where "sort_by_title env (author_page_books env aid {} ms) = Inr (items rb)"
    by (auto simp: parse_author_page_def mk_result_def split: sum.splits)
  then have "items rb = sort_key (title_key env) (author_page_books env aid {} ms)"
    using sort_by_title_Inr by blast
  then show "distinct (map book_id (items rb))"
    using distinct_author_page_books [of env aid "{}" ms] by (simp add: distinct_map_sort_key)
qed

text \<open>The search page that names the book 3 twice, and the author page that names the
  book 1 twice.\<close>

theorem html_book_ids_distinct_witness:
  "http_search_books html_env [] ''war'' 0
     = (Inr (Some search_result), [HTTP_request ''http://flibusta.is/booksearch?ask=war&page=0''])
   \<and> distinct (map book_id (items search_result))
   \<and> map book_id (items search_result) = [''1'', ''2'', ''3'']
   \<and> http_get_author_books html_env [] ''7''
     = (Inr (Some author_books_result), [HTTP_request ''http://flibusta.is/a/7/alphabet''])
   \<and> distinct (map book_id (items author_books_result))
   \<and> map book_id (items author_books_result) = [''1'', ''2'']"
proof -
  have ids: "map book_id (items search_result) = [''1'', ''2'', ''3'']"
    "map book_id (items author_books_result) = [''1'', ''2'']"
    by (simp_all add: search_result_def author_books_result_def)
  show ?thesis
    using html_book_ids_distinct [where env = html_env and tr = "[]" and query = "''war''"
        and page = 0 and r = search_result
        and tr' = "[HTTP_request ''http://flibusta.is/booksearch?ask=war&page=0'']"
        and aid = "''7''" and rb = author_books_result
        and trb = "[HTTP_request ''http://flibusta.is/a/7/alphabet'']"]
      html_search_books_eval html_author_books_eval ids
    by blast
qed

subsection \<open>C7: the first occurrence of a book id wins\<close>

text \<open>
  Claim C7. Let the books extracted from the lines of the fetched page, in order, contain
  a book with the id \<open>i\<close>, and let \<open>first\<close> be the first of them. Then the result of
  \<open>_http_search_books\<close> has exactly one item with the id \<open>i\<close>, and it is \<open>first\<close>, with
  its title.
\<close>

theorem first_occurrence_wins:
  assumes "http_request env tr
             (FLIBUSTA_BASE_URL @ ''/booksearch?ask='' @ quote query @ ''&page='' @ str_int page)
           = (Inr (Some t), tr')"
    and "http_search_books env tr query page = (Inr (Some r), tr'')"
    and "find (\<lambda>b. book_id b = i)
           (List.map_filter (parse_search_line env) (split_on (CHR 0x0A) t)) = Some first"
  shows "filter (\<lambda>b. book_id b = i) (items r) = [first]"
proof -
  have "t \<noteq> []"
    using assms(1,2) http_search_books_empty [of env tr query page tr'] by auto
  from http_search_books_fetched [OF assms(1) this] assms(2)
  have "items r = sort_key (title_key env)
     (unique_books {} (List.map_filter (parse_search_line env) (split_on (CHR 0x0A) t)))"
    by (auto simp: mk_result_def)
  then show ?thesis
    using assms(3) by (simp add: filter_sort filter_unique_books)
qed

text \<open>The search page names the book 3 twice, as \<open>Zebra\<close> and as
  \<open>Zebra (second edition)\<close>; the result keeps \<open>Zebra\<close>.\<close>

theorem first_occurrence_wins_witness:
  "http_request html_env []
     (FLIBUSTA_BASE_URL @ ''/booksearch?ask='' @ quote ''war'' @ ''&page='' @ str_int 0)
     = (Inr (Some search_page), [HTTP_request ''http://flibusta.is/booksearch?ask=war&page=0''])
   \<and> map (\<lambda>b. (book_id b, title b))
         (List.map_filter (parse_search_line html_env) (split_on (CHR 0x0A) search_page))
     = [(''3'', Some ''Zebra''), (''1'', Some ''apple''), (''2'', Some ''Mango''),
        (''3'', Some ''Zebra (second edition)'')]
   \<and> http_search_books html_env [] ''war'' 0
     = (Inr (Some search_result), [HTTP_request ''http://flibusta.is/booksearch?ask=war&page=0''])
   \<and> map title (filter (\<lambda>b. book_id b = ''3'') (items search_result)) = [Some ''Zebra'']"
proof -
  have req: "http_request html_env []
     (FLIBUSTA_BASE_URL @ ''/booksearch?ask='' @ quote ''war'' @ ''&page='' @ str_int 0)
     = (Inr (Some search_page), [HTTP_request ''http://flibusta.is/booksearch?ask=war&page=0''])"
    unfolding search_url by (rule search_page_fetched)
  have "filter (\<lambda>b. book_id b = ''3'') (items search_result)
     = [mk_book ''3'' (Some ''Zebra'') [ann_lee] None None (synth_links ''3'')]"
    using req html_search_books_eval zebra_first by (rule first_occurrence_wins)
  then show ?thesis
    using req html_search_books_eval by (simp add: search_page_books)
qed

subsection \<open>C8: results are sorted by lower-cased title\<close>

text \<open>
  Claim C8. Every result of \<open>_http_search_books\<close> and of \<open>_opds_search_books\<close> has
  items that all have a title, and the lower-cased titles are in ascending order. With a
  \<open>lower\<close> that maps the three titles \<open>Zebra\<close>, \<open>apple\<close>, \<open>Mango\<close> to \<open>zebra\<close>,
  \<open>apple\<close>, \<open>mango\<close>, the sort of both adapters turns books with these titles into
  the order \<open>apple\<close>, \<open>Mango\<close>, \<open>Zebra\<close>.
\<close>

theorem results_sorted_by_title:
  "(http_search_books env tr query page = (Inr (Some r), tr') \<longrightarrow>
      (\<exists>ts. map title (items r) = map Some ts \<and> sorted (map (str_lower env) ts)))
   \<and> (opds_search_books env2 tr2 query2 page2 = (Inr (Some r2), tr2') \<longrightarrow>
      (\<exists>ts. map title (items r2) = map Some ts \<and> sorted (map (str_lower env2) ts)))
   \<and> (str_lower env3 ''Zebra'' = ''zebra'' \<and> str_lower env3 ''apple'' = ''apple''
        \<and> str_lower env3 ''Mango'' = ''mango''
        \<and> map title bs = [Some ''Zebra'', Some ''apple'', Some ''Mango''] \<longrightarrow>
      map_sum id (map title) (sort_by_title env3 bs)
        = Inr [Some ''apple'', Some ''Mango'', Some ''Zebra''])"
proof (intro conjI impI)
  assume "http_search_books env tr query page = (Inr (Some r), tr')"
  then obtain bs0 where "sort_by_title env bs0 = Inr (items r)"
    by (auto simp: http_search_books_def Let_def mk_result_def
        split: prod.splits sum.splits option.splits if_splits)
  then show "\<exists>ts. map title (items r) = map Some ts \<and> sorted (map (str_lower env) ts)"
    by (rule sort_by_title_sorted)
next
  assume "opds_search_books env2 tr2 query2 page2 = (Inr (Some r2), tr2')"
  then obtain bs0 where "sort_by_title env2 bs0 = Inr (items r2)"
    by (auto simp: opds_search_books_def Let_def mk_result_def
        split: prod.splits sum.splits option.splits if_splits)
  then show "\<exists>ts. map title (items r2) = map Some ts \<and> sorted (map (str_lower env2) ts)"
    by (rule sort_by_title_sorted)
next
  assume "str_lower env3 ''Zebra'' = ''zebra'' \<and> str_lower env3 ''apple'' = ''apple''
        \<and> str_lower env3 ''Mango'' = ''mango''
        \<and> map title bs = [Some ''Zebra'', Some ''apple'', Some ''Mango'']"
  then show "map_sum id (map title) (sort_by_title env3 bs)
        = Inr [Some ''apple'', Some ''Mango'', Some ''Zebra'']"
    by (intro sort_by_title_example) simp_all
qed

text \<open>The search page of the HTML source, the feed with two books, and the three titles
  of the claim.\<close>

theorem results_sorted_by_title_witness:
  "http_search_books html_env [] ''war'' 0
     = (Inr (Some search_result), [HTTP_request ''http://flibusta.is/booksearch?ask=war&page=0''])
   \<and> (\<exists>ts. map title (items search_result) = map Some ts \<and> sorted (map (str_lower html_env) ts))
   \<and> map title (items search_result) = [Some ''apple'', Some ''Mango'', Some ''Zebra'']
   \<and> opds_search_books two_books_env [] ''war'' 0
     = (Inr (Some feed_result),
        [OPDS_request ''http://flibusta.is/opds/opensearch?searchTerm=war&searchType=books&pageNumber=0''])
   \<and> (\<exists>ts. map title (items feed_result) = map Some ts \<and> sorted (map (str_lower two_books_env) ts))
   \<and> map title (items feed_result) = [Some ''apple'', Some ''Mango'']
   \<and> str_lower html_env ''Zebra'' = ''zebra'' \<and> str_lower html_env ''apple'' = ''apple''
   \<and> str_lower html_env ''Mango'' = ''mango''
   \<and> map_sum id (map title)
        (sort_by_title html_env
           [mk_book ''3'' (Some ''Zebra'') [] None None [],
            mk_book ''1'' (Some ''apple'') [] None None [],
            mk_book ''2'' (Some ''Mango'') [] None None []])
     = Inr [Some ''apple'', Some ''Mango'', Some ''Zebra'']"
proof -
  let ?bs = "[mk_book ''3'' (Some ''Zebra'') [] None None [],
              mk_book ''1'' (Some ''apple'') [] None None [],
              mk_book ''2'' (Some ''Mango'') [] None None []]"
  have low: "str_lower html_env ''Zebra'' = ''zebra''" "str_lower html_env ''apple'' = ''apple''"
    "str_lower html_env ''Mango'' = ''mango''"
    by (simp_all add: lower_zebra lower_apple lower_mango)
  have ts: "map title ?bs = [Some ''Zebra'', Some ''apple'', Some ''Mango'']" by simp
  have t1: "map title (items search_result) = [Some ''apple'', Some ''Mango'', Some ''Zebra'']"
    by (simp add: search_result_def)
  have t2: "map title (items feed_result) = [Some ''apple'', Some ''Mango'']"
    by (simp add: feed_result_def)
  have feed: "opds_search_books two_books_env [] ''war'' 0
     = (Inr (Some feed_result),
        [OPDS_request ''http://flibusta.is/opds/opensearch?searchTerm=war&searchType=books&pageNumber=0''])"
    using two_books_search_eval [of "[]"] by simp
  show ?thesis
    using results_sorted_by_title [where env = html_env and tr = "[]" and query = "''war''"
        and page = 0 and r = search_result
        and tr' = "[HTTP_request ''http://flibusta.is/booksearch?ask=war&page=0'']"
        and ?env2.0 = two_books_env and ?tr2.0 = "[]" and ?query2.0 = "''war''"
        and ?page2.0 = 0 and ?r2.0 = feed_result
        and tr2' = "[OPDS_request ''http://flibusta.is/opds/opensearch?searchTerm=war&searchType=books&pageNumber=0'']"
        and ?env3.0 = html_env and bs = ?bs]
      html_search_books_eval feed low ts t1 t2
    by blast
qed

subsection \<open>C9: the flag for a further page\<close>

text \<open>
  Claim C9. When the request of \<open>_http_search_books\<close> for the page \<open>p\<close> fetches the text
  \<open>t\<close>, a result that is returned has \<open>has_more\<close> set if and only if \<open>page=\<close> followed
  by the decimal \<open>p + 1\<close> occurs in \<open>t\<close>; and a result is returned whenever \<open>t\<close> is not
  empty.
\<close>

theorem has_more_heuristic:
  assumes "http_request env tr
             (FLIBUSTA_BASE_URL @ ''/booksearch?ask='' @ quote query @ ''&page='' @ str_int page)
           = (Inr (Some t), tr')"
  shows "(\<forall>r. fst (http_search_books env tr query page) = Inr (Some r) \<longrightarrow>
            (has_more r \<longleftrightarrow> sublist (''page='' @ str_int (page + 1)) t))
         \<and> (t \<noteq> [] \<longrightarrow> (\<exists>r. fst (http_search_books env tr query page) = Inr (Some r)))"
proof (cases "t = []")
  case True
  then show ?thesis using http_search_books_empty [of env tr query page tr'] assms by simp
next
  case False
  then show ?thesis
    using http_search_books_fetched [OF assms False]
    by (auto simp: mk_result_def contains_iff_sublist)
qed

text \<open>Page 0 of the search, which links to \<open>page=1\<close>, and page 1, which has no
  link to \<open>page=2\<close>.\<close>

theorem has_more_heuristic_witness:
  "http_request html_env []
     (FLIBUSTA_BASE_URL @ ''/booksearch?ask='' @ quote ''war'' @ ''&page='' @ str_int 0)
     = (Inr (Some search_page), [HTTP_request ''http://flibusta.is/booksearch?ask=war&page=0''])
   \<and> fst (http_search_books html_env [] ''war'' 0) = Inr (Some search_result)
   \<and> has_more search_result
   \<and> sublist (''page='' @ str_int (0 + 1)) search_page
   \<and> ''page='' @ str_int (0 + 1) = ''page=1''
   \<and> http_request html_env []
     (FLIBUSTA_BASE_URL @ ''/booksearch?ask='' @ quote ''war'' @ ''&page='' @ str_int 1)
     = (Inr (Some last_page), [HTTP_request ''http://flibusta.is/booksearch?ask=war&page=1''])
   \<and> map_sum id (map_option has_more) (fst (http_search_books html_env [] ''war'' 1))
     = Inr (Some False)
   \<and> \<not> sublist (''page='' @ str_int (1 + 1)) last_page
   \<and> ''page='' @ str_int (1 + 1) = ''page=2''"
proof -
  have req: "http_request html_env []
     (FLIBUSTA_BASE_URL @ ''/booksearch?ask='' @ quote ''war'' @ ''&page='' @ str_int 0)
     = (Inr (Some search_page), [HTTP_request ''http://flibusta.is/booksearch?ask=war&page=0''])"
    unfolding search_url by (rule search_page_fetched)
  have res: "fst (http_search_books html_env [] ''war'' 0) = Inr (Some search_result)"
    by (simp add: html_search_books_eval)
  have more: "has_more search_result" by (simp add: search_result_def)
  have req1: "http_request html_env []
     (FLIBUSTA_BASE_URL @ ''/booksearch?ask='' @ quote ''war'' @ ''&page='' @ str_int 1)
     = (Inr (Some last_page), [HTTP_request ''http://flibusta.is/booksearch?ask=war&page=1''])"
    by (simp add: FLIBUSTA_BASE_URL_def quote_war str_int_1 http_request_def get_text_def
        html_get_def raise_for_status_def)
  have res1: "fst (http_search_books html_env [] ''war'' 1)
     = Inr (Some (mk_result [mk_book ''1'' (Some ''apple'') [] None None (synth_links ''1'')]
                    False ''http''))"
    by (simp add: last_page_eval)
  have a: "sublist (''page='' @ str_int (0 + 1)) search_page"
    using has_more_heuristic [OF req] res more by blast
  have "has_more (mk_result [mk_book ''1'' (Some ''apple'') [] None None (synth_links ''1'')]
                    False ''http'') \<longleftrightarrow> sublist (''page='' @ str_int (1 + 1)) last_page"
    using has_more_heuristic [OF req1] res1 by blast
  then have b: "\<not> sublist (''page='' @ str_int (1 + 1)) last_page" by simp
  show ?thesis
    using req res more a req1 res1 b by (simp add: str_int_1 str_int_2)
qed

subsection \<open>C10: an exception of the status callback is dropped\<close>

text \<open>
  Claim C10. If the status callback raises an exception when it is called with the
  fallback message, then, whenever the HTML adapter returns no result or a result without
  items, each public operation is the feed adapter run on the trace with the call and the
  logged exception: the outcome is the feed adapter's, not the callback's exception, and a
  feed request follows in the trace.
\<close>

theorem callback_exception_caught:
  assumes "f FALLBACK_MESSAGE = Some e"
  shows
  "(http_search_books env tr query page = (Inr result, tr1)
      \<and> (result = None \<or> (\<exists>r. result = Some r \<and> items r = [])) \<longrightarrow>
      search_books env tr query page (Some f)
        = opds_search_books env (tr1 @ [Status FALLBACK_MESSAGE, Callback_error e]) query page
      \<and> (\<exists>url rest. snd (search_books env tr query page (Some f))
            = tr1 @ [Status FALLBACK_MESSAGE, Callback_error e] @ OPDS_request url # rest))
   \<and> (http_search_authors env tr query = (Inr resulta, tra)
      \<and> (resulta = None \<or> (\<exists>r. resulta = Some r \<and> items r = [])) \<longrightarrow>
      search_authors env tr query page (Some f)
        = opds_search_authors env (tra @ [Status FALLBACK_MESSAGE, Callback_error e]) query page
      \<and> (\<exists>url rest. snd (search_authors env tr query page (Some f))
            = tra @ [Status FALLBACK_MESSAGE, Callback_error e] @ OPDS_request url # rest))
   \<and> (http_get_author_books env tr aid = (Inr resultb, trb)
      \<and> (resultb = None \<or> (\<exists>r. resultb = Some r \<and> items r = [])) \<longrightarrow>
      get_author_books env tr aid page (Some f)
        = opds_get_author_books env (trb @ [Status FALLBACK_MESSAGE, Callback_error e]) aid
      \<and> (\<exists>url rest. snd (get_author_books env tr aid page (Some f))
            = trb @ [Status FALLBACK_MESSAGE, Callback_error e] @ OPDS_request url # rest))"
proof (intro conjI impI; elim conjE)
  let ?ev = "[Status FALLBACK_MESSAGE, Callback_error e]"
  {
    assume h: "http_search_books env tr query page = (Inr result, tr1)"
      and "result = None \<or> (\<exists>r. result = Some r \<and> items r = [])"
    then have nu: "\<not> usable result" by (simp add: not_usable_iff)
    show eq: "search_books env tr query page (Some f) = opds_search_books env (tr1 @ ?ev) query page"
      using search_books_fallback [OF h nu, of "Some f"] notify_raising [of f e, OF assms] by simp
    show "\<exists>url rest. snd (search_books env tr query page (Some f)) = tr1 @ ?ev @ OPDS_request url # rest"
      unfolding eq using opds_search_books_trace [of env "tr1 @ ?ev" query page] by auto
  next
    assume h: "http_search_authors env tr query = (Inr resulta, tra)"
      and "resulta = None \<or> (\<exists>r. resulta = Some r \<and> items r = [])"
    then have nu: "\<not> usable resulta" by (simp add: not_usable_iff)
    show eq: "search_authors env tr query page (Some f) = opds_search_authors env (tra @ ?ev) query page"
      using search_authors_fallback [OF h nu, of page "Some f"] notify_raising [of f e, OF assms] by simp
    show "\<exists>url rest. snd (search_authors env tr query page (Some f)) = tra @ ?ev @ OPDS_request url # rest"
      unfolding eq using opds_search_authors_trace [of env "tra @ ?ev" query page] by auto
  next
    assume h: "http_get_author_books env tr aid = (Inr resultb, trb)"
      and "resultb = None \<or> (\<exists>r. resultb = Some r \<and> items r = [])"
    then have nu: "\<not> usable resultb" by (simp add: not_usable_iff)
    show eq: "get_author_books env tr aid page (Some f) = opds_get_author_books env (trb @ ?ev) aid"
      using get_author_books_fallback [OF h nu, of page "Some f"] notify_raising [of f e, OF assms] by simp
    show "\<exists>url rest. snd (get_author_books env tr aid page (Some f)) = trb @ ?ev @ OPDS_request url # rest"
      unfolding eq using opds_get_author_books_trace [of env "trb @ ?ev" aid] by auto
  }
qed

text \<open>The three operations on the catalog whose HTML source answers 503, with a callback
  that raises.\<close>

theorem callback_exception_caught_witness:
  "failing_callback FALLBACK_MESSAGE = Some OtherException
   \<and> http_search_books two_books_env [] ''war'' 0
     = (Inr None, [HTTP_request ''http://flibusta.is/booksearch?ask=war&page=0''])
   \<and> search_books two_books_env [] ''war'' 0 (Some failing_callback)
     = (Inr (Some feed_result),
        [HTTP_request ''http://flibusta.is/booksearch?ask=war&page=0'',
         Status FALLBACK_MESSAGE, Callback_error OtherException,
         OPDS_request ''http://flibusta.is/opds/opensearch?searchTerm=war&searchType=books&pageNumber=0''])
   \<and> http_search_authors two_books_env [] ''war''
     = (Inr None, [HTTP_request ''http://flibusta.is/booksearch?ask=war''])
   \<and> search_authors two_books_env [] ''war'' 0 (Some failing_callback)
     = (Inr (Some feed_authors_result),
        [HTTP_request ''http://flibusta.is/booksearch?ask=war'',
         Status FALLBACK_MESSAGE, Callback_error OtherException,
         OPDS_request ''http://flibusta.is/opds/opensearch?searchTerm=war&searchType=authors&pageNumber=0''])
   \<and> http_get_author_books two_books_env [] ''7''
     = (Inr None, [HTTP_request ''http://flibusta.is/a/7/alphabet'',
                   HTTP_request ''http://flibusta.is/a/7''])
   \<and> get_author_books two_books_env [] ''7'' 0 (Some failing_callback)
     = (Inr (Some feed_result),
        [HTTP_request ''http://flibusta.is/a/7/alphabet'', HTTP_request ''http://flibusta.is/a/7'',
         Status FALLBACK_MESSAGE, Callback_error OtherException,
         OPDS_request ''http://flibusta.is/opds/author/7''])"
proof -
  have raises: "failing_callback FALLBACK_MESSAGE = Some OtherException"
    by (simp add: failing_callback_def)
  show ?thesis
    using callback_exception_caught [where f = failing_callback and e = OtherException
        and env = two_books_env and tr = "[]"
        and query = "''war''" and page = 0 and aid = "''7''"
        and result = None
        and ?tr1.0 = "[HTTP_request ''http://flibusta.is/booksearch?ask=war&page=0'']"
        and resulta = None
        and tra = "[HTTP_request ''http://flibusta.is/booksearch?ask=war'']"
        and resultb = None
        and trb = "[HTTP_request ''http://flibusta.is/a/7/alphabet'',
                    HTTP_request ''http://flibusta.is/a/7'']", OF raises]
      two_books_html_down raises
    by (simp add: two_books_search_eval two_books_authors_eval two_books_author_eval)
qed

end
